theory Spec2Isabelle
  imports Complex_Main "HOL-Library.Multiset"
begin

section \<open>turftopic: the shared model contract of \<^verbatim>\<open>turftopic/base.py\<close>\<close>

text \<open>
  A shallow embedding of \<^verbatim>\<open>ContextualModel\<close> and of \<^verbatim>\<open>remove_whitespace\<close>.

  \<^item> Weights and scores are \<open>real\<close>: the routines only negate and compare them.
  \<^item> A Python \<open>str\<close> is a \<open>string\<close>, one \<open>char\<close> per code point (code points below 256).
  \<^item> Python integers (\<open>top_k\<close>, topic ids) are \<open>int\<close>; positions in arrays are \<open>nat\<close>.
  \<^item> Every \<open>raise\<close> is a value \<open>Inl e\<close> of \<open>py_error + 'a\<close>.
  \<^item> The learned attributes of \<open>self\<close> are the record \<open>state\<close>; the methods a concrete
    variant supplies (\<open>transform\<close>, \<open>fit_transform\<close>, the encoder, the vectorizer) are the
    record \<open>variant\<close>; an attribute that does not exist is \<open>None\<close>.
  \<^item> NumPy's \<open>argpartition\<close> and \<open>argsort\<close> and the \<open>.2f\<close> float format are the fields of
    the record \<open>lib\<close>. NumPy leaves the order of tied elements open, so the theorems hold
    for every \<open>lib\<close> that meets NumPy's documented contract (\<open>lib_ok\<close>); \<open>ref_lib\<close> is
    one such library, used to run the model on concrete inputs.
\<close>

subsection \<open>Errors\<close>

text \<open>
  \<open>NotFittedError\<close> is scikit-learn's exception; it derives from both \<^verbatim>\<open>ValueError\<close> and
  \<^verbatim>\<open>AttributeError\<close>, so every handler for \<^verbatim>\<open>AttributeError\<close> has a branch for it.
\<close>

datatype py_error =
    AttributeError
  | NotFittedError
  | ValueError string
  | IndexError
  | TypeError
  | OtherError string

subsection \<open>Arrays\<close>

text \<open>A two-dimensional array: \<open>shape = (length (rows M), ncols M)\<close>.\<close>

record matrix =
  ncols :: nat
  rows :: "real list list"

definition wf_matrix :: "matrix \<Rightarrow> bool" where
  "wf_matrix M = list_all (\<lambda>r. length r = ncols M) (rows M)"

definition neg :: "real list \<Rightarrow> real list" where
  "neg a = map uminus a"

text \<open>Python's slice \<^verbatim>\<open>xs[:k]\<close>; a negative \<open>k\<close> counts from the end.\<close>

definition py_take :: "int \<Rightarrow> 'a list \<Rightarrow> 'a list" where
  "py_take k xs = (if 0 \<le> k then take (nat k) xs else take (nat (int (length xs) + k)) xs)"

text \<open>Integer-array indexing \<^verbatim>\<open>a[idx]\<close> for positions \<open>idx\<close>; out of range raises.\<close>

definition take_idx :: "'a list \<Rightarrow> nat list \<Rightarrow> py_error + 'a list" where
  "take_idx a idx =
     (if list_all (\<lambda>i. i < length a) idx then Inr (map (\<lambda>i. a ! i) idx) else Inl IndexError)"

text \<open>Resolving a Python index \<open>j\<close> on an axis of length \<open>n\<close>.\<close>

definition py_index :: "nat \<Rightarrow> int \<Rightarrow> nat option" where
  "py_index n j =
     (if 0 \<le> j \<and> j < int n then Some (nat j)
      else if j < 0 \<and> - int n \<le> j then Some (nat (int n + j))
      else None)"

text \<open>\<^verbatim>\<open>M[:, j]\<close>.\<close>

definition column :: "matrix \<Rightarrow> int \<Rightarrow> py_error + real list" where
  "column M j =
     (case py_index (ncols M) j of
        None \<Rightarrow> Inl IndexError
      | Some c \<Rightarrow> Inr (map (\<lambda>r. r ! c) (rows M)))"

subsection \<open>The library: NumPy's selection and sorting, the float format\<close>

record lib =
  argpartition :: "real list \<Rightarrow> nat \<Rightarrow> nat list"
  argsort :: "real list \<Rightarrow> nat list"
  format_2f :: "real \<Rightarrow> string"

definition is_perm :: "nat list \<Rightarrow> nat \<Rightarrow> bool" where
  "is_perm p n = (sort p = [0..<n])"

text \<open>
  \<open>partitioned a kth p\<close>: \<open>p\<close> lists the positions of \<open>a\<close> so that the element at place
  \<open>kth\<close> is where a sort would put it, nothing before it is larger and nothing after it
  is smaller.
\<close>

definition partitioned :: "real list \<Rightarrow> nat \<Rightarrow> nat list \<Rightarrow> bool" where
  "partitioned a kth p =
     (is_perm p (length a) \<and>
      list_all (\<lambda>i. a ! i \<le> a ! (p ! kth)) (take kth p) \<and>
      list_all (\<lambda>i. a ! (p ! kth) \<le> a ! i) (drop (Suc kth) p))"

definition argsorted :: "real list \<Rightarrow> nat list \<Rightarrow> bool" where
  "argsorted a p = (is_perm p (length a) \<and> sorted (map (\<lambda>i. a ! i) p))"

definition lib_ok :: "lib \<Rightarrow> bool" where
  "lib_ok L =
     ((\<forall>a kth. kth < length a \<longrightarrow> partitioned a kth (argpartition L a kth)) \<and>
      (\<forall>a. argsorted a (argsort L a)))"

text \<open>
  \<^verbatim>\<open>np.argpartition(a, kth)\<close> on one axis of length \<open>length a\<close>: a negative \<open>kth\<close> is
  shifted by the length, and a \<open>kth\<close> outside the axis raises unless the array is empty.
\<close>

definition np_argpartition :: "lib \<Rightarrow> real list \<Rightarrow> int \<Rightarrow> py_error + nat list" where
  "np_argpartition L a kth =
     (let n = int (length a); k = (if kth < 0 then kth + n else kth)
      in if a = [] then Inr []
         else if k < 0 \<or> n \<le> k then Inl (ValueError ''kth out of bounds'')
         else Inr (argpartition L a (nat k)))"

text \<open>
  The same on the last axis of a matrix. The bound is checked once, against the number of
  columns, and only when the matrix has at least one cell.
\<close>

definition np_argpartition2 :: "lib \<Rightarrow> matrix \<Rightarrow> int \<Rightarrow> py_error + nat list list" where
  "np_argpartition2 L M kth =
     (let n = int (ncols M); k = (if kth < 0 then kth + n else kth)
      in if rows M = [] \<or> ncols M = 0 then Inr (map (\<lambda>r. []) (rows M))
         else if k < 0 \<or> n \<le> k then Inl (ValueError ''kth out of bounds'')
         else Inr (map (\<lambda>r. argpartition L (neg r) (nat k)) (rows M)))"

subsection \<open>The model\<close>

text \<open>
  The attributes \<^verbatim>\<open>self.components_\<close> and \<^verbatim>\<open>self.classes_\<close> (\<open>None\<close> while the attribute
  does not exist) and the fitted vocabulary of \<^verbatim>\<open>self.vectorizer\<close>.
\<close>

record state =
  components :: "matrix option"
  classes :: "int list option"
  vocabulary :: "string list option"

text \<open>
  \<^verbatim>\<open>get_vocab\<close>: the feature names of the vectorizer, which raises \<^verbatim>\<open>NotFittedError\<close>
  before it has been fitted.
\<close>

definition get_vocab :: "state \<Rightarrow> py_error + string list" where
  "get_vocab s = (case vocabulary s of None \<Rightarrow> Inl NotFittedError | Some v \<Rightarrow> Inr v)"

text \<open>
  Lines 43 to 46 and 370 to 373: \<^verbatim>\<open>self.classes_\<close>, or \<^verbatim>\<open>list(range(n_topics))\<close> when the
  attribute does not exist.
\<close>

definition classes_or_range :: "state \<Rightarrow> nat \<Rightarrow> int list" where
  "classes_or_range s n_topics =
     (case classes s of
        Some cs \<Rightarrow> cs
      | None \<Rightarrow> map int [0..<n_topics])"

text \<open>The body of the first loop of \<^verbatim>\<open>get_topics\<close>, for one topic row.\<close>

definition top_of_row :: "lib \<Rightarrow> string list \<Rightarrow> real list \<Rightarrow> nat list
    \<Rightarrow> py_error + (string list \<times> real list)" where
  "top_of_row L vocab component high =
     (case take_idx component high of
        Inl e \<Rightarrow> Inl e
      | Inr importance \<Rightarrow>
          (case take_idx high (argsort L (neg importance)) of
             Inl e \<Rightarrow> Inl e
           | Inr high' \<Rightarrow>
               (case take_idx component high' of
                  Inl e \<Rightarrow> Inl e
                | Inr score \<Rightarrow>
                    (case take_idx vocab high' of
                       Inl e \<Rightarrow> Inl e
                     | Inr words \<Rightarrow> Inr (words, score)))))"

fun top_loop :: "lib \<Rightarrow> string list \<Rightarrow> (real list \<times> nat list) list
    \<Rightarrow> py_error + (string list \<times> real list) list" where
  "top_loop L vocab [] = Inr []"
| "top_loop L vocab ((component, high) # rest) =
     (case top_of_row L vocab component high of
        Inl e \<Rightarrow> Inl e
      | Inr t \<Rightarrow>
          (case top_loop L vocab rest of
             Inl e \<Rightarrow> Inl e
           | Inr ts \<Rightarrow> Inr (t # ts)))"

definition get_topics :: "lib \<Rightarrow> state \<Rightarrow> int
    \<Rightarrow> py_error + (int \<times> (string \<times> real) list) list" where
  "get_topics L s top_k =
     (case components s of
        None \<Rightarrow> Inl AttributeError
      | Some C \<Rightarrow>
          (let n_topics = length (rows C);
               cls = classes_or_range s n_topics
           in case np_argpartition2 L C top_k of
                Inl e \<Rightarrow> Inl e
              | Inr parts \<Rightarrow>
                  (let highest = map (py_take top_k) parts
                   in case get_vocab s of
                        Inl e \<Rightarrow> Inl e
                      | Inr vocab \<Rightarrow>
                          (case top_loop L vocab (zip (rows C) highest) of
                             Inl e \<Rightarrow> Inl e
                           | Inr tops \<Rightarrow>
                               Inr (map (\<lambda>(topic, words, scores). (topic, zip words scores))
                                      (zip cls tops))))))"


text \<open>\<^verbatim>\<open>get_feature_names_out\<close>: the topic ids as an array.\<close>

definition get_feature_names_out :: "state \<Rightarrow> py_error + int list" where
  "get_feature_names_out s =
     (case components s of
        None \<Rightarrow> Inl AttributeError
      | Some C \<Rightarrow>
          (let n_topics = length (rows C)
           in Inr (classes_or_range s n_topics)))"

subsection \<open>Strings\<close>

text \<open>\<^verbatim>\<open>sep.join(words)\<close>.\<close>

fun join :: "string \<Rightarrow> string list \<Rightarrow> string" where
  "join sep [] = []"
| "join sep [w] = w"
| "join sep (w # w' # ws) = w @ sep @ join sep (w' # ws)"

text \<open>\<^verbatim>\<open>str(i)\<close> for an integer: its decimal digits, with a minus sign when negative.\<close>

definition digit_char :: "nat \<Rightarrow> char" where
  "digit_char d = ''0123456789'' ! d"

fun digits :: "nat \<Rightarrow> string" where
  "digits n = (if n < 10 then [digit_char n] else digits (n div 10) @ [digit_char (n mod 10)])"

declare digits.simps [simp del]

definition str_int :: "int \<Rightarrow> string" where
  "str_int i = (if i < 0 then CHR ''-'' # digits (nat (- i)) else digits (nat i))"

text \<open>
  The characters Python's \<^verbatim>\<open>str.split()\<close> and \<^verbatim>\<open>str.strip()\<close> treat as whitespace, among
  the code points below 256: U+0009 to U+000D, U+001C to U+0020, U+0085 and U+00A0.
\<close>

definition is_space :: "char \<Rightarrow> bool" where
  "is_space c =
     (let n = (of_char c :: nat)
      in (9 \<le> n \<and> n \<le> 13) \<or> (28 \<le> n \<and> n \<le> 32) \<or> n = 133 \<or> n = 160)"

definition strip :: "string \<Rightarrow> string" where
  "strip text = rev (dropWhile is_space (rev (dropWhile is_space text)))"

text \<open>
  \<^verbatim>\<open>text.split()\<close>: the maximal runs of characters that are not whitespace. \<open>split_from w cs\<close>
  scans \<open>cs\<close> with the word \<open>w\<close> read so far.
\<close>

fun split_from :: "string \<Rightarrow> string \<Rightarrow> string list" where
  "split_from w [] = (if w = [] then [] else [w])"
| "split_from w (c # cs) =
     (if is_space c then (if w = [] then split_from [] cs else w # split_from [] cs)
      else split_from (w @ [c]) cs)"

definition split :: "string \<Rightarrow> string list" where
  "split text = split_from [] text"

definition remove_whitespace :: "string \<Rightarrow> string" where
  "remove_whitespace text = join '' '' (split (strip text))"

subsection \<open>Topic names\<close>

text \<open>The loop shared by \<^verbatim>\<open>topic_names\<close> and \<^verbatim>\<open>_topic_distribution\<close>.\<close>

definition name_of :: "int \<times> (string \<times> real) list \<Rightarrow> string" where
  "name_of td = (case td of (topic_id, terms) \<Rightarrow>
     (let concat_words = join ''_'' (map fst terms)
      in str_int topic_id @ ''_'' @ concat_words))"

definition topic_names :: "lib \<Rightarrow> state \<Rightarrow> py_error + string list" where
  "topic_names L s =
     (case get_topics L s 4 of
        Inl e \<Rightarrow> Inl e
      | Inr topic_desc \<Rightarrow> Inr (map name_of topic_desc))"

subsection \<open>The methods of a concrete variant\<close>

text \<open>
  \<open>transform\<close> is \<open>None\<close> for a transductive variant, whose class has no such attribute.
  The optional argument of \<open>transform\<close> and \<open>fit_transform\<close> is \<^verbatim>\<open>embeddings\<close>.
  Only \<open>fit_transform\<close> returns a new learned state.
\<close>

record variant =
  transform :: "(state \<Rightarrow> string list \<Rightarrow> real list list option \<Rightarrow> py_error + matrix) option"
  fit_transform :: "state \<Rightarrow> string list \<Rightarrow> real list list option \<Rightarrow> py_error + (matrix \<times> state)"
  encode :: "string list \<Rightarrow> py_error + real list list"
  vectorizer_transform :: "state \<Rightarrow> string list \<Rightarrow> py_error + nat list list"

definition encode_documents :: "variant \<Rightarrow> string list \<Rightarrow> py_error + real list list" where
  "encode_documents v raw_documents = encode v raw_documents"

subsection \<open>Representative documents\<close>

definition transductive_matrix_msg :: string where
  "transductive_matrix_msg =
     ''Transductive methods cannot infer topical content in documents.'' @ [CHR 0x0A] @
     ''Please pass a document_topic_matrix.''"

definition transductive_dist_msg :: string where
  "transductive_dist_msg =
     ''Transductive methods cannot infer topical content in documents.'' @ [CHR 0x0A] @
     ''Please pass a topic distribution.''"

text \<open>\<^verbatim>\<open>xs.index(x)\<close>: the first position of \<open>x\<close>.\<close>

fun index_of :: "'a list \<Rightarrow> 'a \<Rightarrow> nat option" where
  "index_of [] x = None"
| "index_of (y # ys) x = (if y = x then Some 0 else map_option Suc (index_of ys x))"

definition resolve_topic :: "state \<Rightarrow> int \<Rightarrow> py_error + int" where
  "resolve_topic s topic_id =
     (case classes s of
        None \<Rightarrow> Inr topic_id
      | Some cs \<Rightarrow>
          (case index_of cs topic_id of
             None \<Rightarrow> Inl (ValueError ''topic_id is not in list'')
           | Some i \<Rightarrow> Inr (int i)))"

text \<open>Lines 147 to 149: what is shown of one document.\<close>

definition display_doc :: "string \<Rightarrow> string" where
  "display_doc doc =
     (let doc = remove_whitespace doc
      in if length doc > 300 then take 300 doc @ ''...'' else doc)"

text \<open>The loop over \<^verbatim>\<open>zip(highest, scores)\<close>.\<close>

fun doc_rows :: "lib \<Rightarrow> string list \<Rightarrow> (nat \<times> real) list \<Rightarrow> py_error + string list list" where
  "doc_rows L raw_documents [] = Inr []"
| "doc_rows L raw_documents ((document_id, score) # rest) =
     (if length raw_documents \<le> document_id then Inl IndexError
      else (case doc_rows L raw_documents rest of
              Inl e \<Rightarrow> Inl e
            | Inr rs \<Rightarrow> Inr ([display_doc (raw_documents ! document_id), format_2f L score] # rs)))"

text \<open>Lines 138 to 140: the selected positions, best first, and their scores.\<close>

definition select_highest :: "lib \<Rightarrow> real list \<Rightarrow> int \<Rightarrow> py_error + (nat list \<times> real list)" where
  "select_highest L col kth =
     (case np_argpartition L (neg col) kth of
        Inl e \<Rightarrow> Inl e
      | Inr part \<Rightarrow>
          (let highest = py_take kth part
           in case take_idx col highest of
                Inl e \<Rightarrow> Inl e
              | Inr sc \<Rightarrow>
                  (case take_idx highest (argsort L (neg sc)) of
                     Inl e \<Rightarrow> Inl e
                   | Inr highest' \<Rightarrow>
                       (case take_idx col highest' of
                          Inl e \<Rightarrow> Inl e
                        | Inr scores \<Rightarrow> Inr (highest', scores)))))"

text \<open>
  Lines 124 to 132: the matrix passed in, or the one \<^verbatim>\<open>transform\<close> computes. The handler
  \<^verbatim>\<open>except AttributeError\<close> also catches scikit-learn's \<^verbatim>\<open>NotFittedError\<close>, which is a subclass
  of \<^verbatim>\<open>AttributeError\<close>.
\<close>

definition matrix_or_transform :: "variant \<Rightarrow> state \<Rightarrow> string list \<Rightarrow> matrix option
    \<Rightarrow> py_error + matrix" where
  "matrix_or_transform v s raw_documents document_topic_matrix =
     (case document_topic_matrix of
        Some M \<Rightarrow> Inr M
      | None \<Rightarrow>
          (case transform v of
             None \<Rightarrow> Inl (ValueError transductive_matrix_msg)
           | Some f \<Rightarrow>
               (case f s raw_documents None of
                  Inl AttributeError \<Rightarrow> Inl (ValueError transductive_matrix_msg)
                | Inl NotFittedError \<Rightarrow> Inl (ValueError transductive_matrix_msg)
                | Inl e \<Rightarrow> Inl e
                | Inr M \<Rightarrow> Inr M)))"

definition highest_ranking_docs :: "lib \<Rightarrow> variant \<Rightarrow> state \<Rightarrow> int \<Rightarrow> string list
    \<Rightarrow> matrix option \<Rightarrow> int \<Rightarrow> py_error + string list list" where
  "highest_ranking_docs L v s topic_id raw_documents document_topic_matrix top_k =
     (case matrix_or_transform v s raw_documents document_topic_matrix of
        Inl e \<Rightarrow> Inl e
      | Inr M \<Rightarrow>
          (case resolve_topic s topic_id of
             Inl e \<Rightarrow> Inl e
           | Inr topic_id \<Rightarrow>
               (let kth = min top_k (int (length (rows M)) - 1)
                in case column M topic_id of
                     Inl e \<Rightarrow> Inl e
                   | Inr col \<Rightarrow>
                       (case select_highest L col kth of
                          Inl e \<Rightarrow> Inl e
                        | Inr (highest, scores) \<Rightarrow>
                            (case doc_rows L raw_documents (zip highest scores) of
                               Inl e \<Rightarrow> Inl e
                             | Inr rs \<Rightarrow> Inr ([''Document'', ''Score''] # rs))))))"

subsection \<open>The topic distribution of one document\<close>

text \<open>An array of dimension 0, 1 or 2.\<close>

datatype ndarray = Arr0 real | Arr1 "real list" | Arr2 matrix

text \<open>\<^verbatim>\<open>np.squeeze\<close>: every axis of length one is dropped.\<close>

definition np_squeeze :: "ndarray \<Rightarrow> ndarray" where
  "np_squeeze a =
     (case a of
        Arr0 x \<Rightarrow> Arr0 x
      | Arr1 xs \<Rightarrow> (if length xs = 1 then Arr0 (hd xs) else Arr1 xs)
      | Arr2 M \<Rightarrow>
          (if length (rows M) = 1 \<and> ncols M = 1 then Arr0 (hd (hd (rows M)))
           else if length (rows M) = 1 then Arr1 (hd (rows M))
           else if ncols M = 1 then Arr1 (map hd (rows M))
           else Arr2 M))"

text \<open>
  Lines 224 to 234: the distribution passed in, or the one \<^verbatim>\<open>transform\<close> computes; the
  handler catches \<^verbatim>\<open>NotFittedError\<close> as well, as above.
\<close>

definition dist_or_transform :: "variant \<Rightarrow> state \<Rightarrow> string option \<Rightarrow> ndarray option
    \<Rightarrow> py_error + ndarray" where
  "dist_or_transform v s text topic_dist =
     (case topic_dist of
        Some d \<Rightarrow> Inr d
      | None \<Rightarrow>
          (case text of
             None \<Rightarrow> Inl (ValueError ''You should either pass a text or a distribution.'')
           | Some t \<Rightarrow>
               (case transform v of
                  None \<Rightarrow> Inl (ValueError transductive_dist_msg)
                | Some f \<Rightarrow>
                    (case f s [t] None of
                       Inl AttributeError \<Rightarrow> Inl (ValueError transductive_dist_msg)
                     | Inl NotFittedError \<Rightarrow> Inl (ValueError transductive_dist_msg)
                     | Inl e \<Rightarrow> Inl e
                     | Inr M \<Rightarrow> Inr (Arr2 M)))))"

text \<open>The loop over \<^verbatim>\<open>highest\<close> for a one-dimensional distribution.\<close>

fun dist_rows :: "lib \<Rightarrow> string list \<Rightarrow> real list \<Rightarrow> nat list \<Rightarrow> py_error + string list list" where
  "dist_rows L names topic_dist [] = Inr []"
| "dist_rows L names topic_dist (ind # rest) =
     (if length topic_dist \<le> ind \<or> length names \<le> ind then Inl IndexError
      else (case dist_rows L names topic_dist rest of
              Inl e \<Rightarrow> Inl e
            | Inr rs \<Rightarrow> Inr ([names ! ind, format_2f L (topic_dist ! ind)] # rs)))"

text \<open>
  Lines 241 to 249. An array of dimension 0 is sorted as its one-element ravel and then
  cannot be indexed; in a matrix each \<^verbatim>\<open>ind\<close> is a whole row of positions, which indexes
  the rows of the matrix but not the list of names.
\<close>

definition rank_topics :: "lib \<Rightarrow> string list \<Rightarrow> ndarray \<Rightarrow> int \<Rightarrow> py_error + string list list" where
  "rank_topics L names topic_dist top_k =
     (case topic_dist of
        Arr1 xs \<Rightarrow>
          (let highest = py_take top_k (argsort L (neg xs))
           in case dist_rows L names xs highest of
                Inl e \<Rightarrow> Inl e
              | Inr rs \<Rightarrow> Inr ([''Topic name'', ''Score''] # rs))
      | Arr0 x \<Rightarrow>
          (let highest = py_take top_k (argsort L (neg [x]))
           in if highest = [] then Inr [[''Topic name'', ''Score'']] else Inl IndexError)
      | Arr2 M \<Rightarrow>
          (let highest = py_take top_k (map (\<lambda>r. argsort L (neg r)) (rows M))
           in case highest of
                [] \<Rightarrow> Inr [[''Topic name'', ''Score'']]
              | ind # rest \<Rightarrow>
                  (if list_all (\<lambda>i. i < length (rows M)) ind then Inl TypeError
                   else Inl IndexError)))"

definition topic_distribution :: "lib \<Rightarrow> variant \<Rightarrow> state \<Rightarrow> string option \<Rightarrow> ndarray option
    \<Rightarrow> int \<Rightarrow> py_error + string list list" where
  "topic_distribution L v s text topic_dist top_k =
     (case dist_or_transform v s text topic_dist of
        Inl e \<Rightarrow> Inl e
      | Inr topic_dist \<Rightarrow>
          (let topic_dist = np_squeeze topic_dist
           in case get_topics L s 4 of
                Inl e \<Rightarrow> Inl e
              | Inr topic_desc \<Rightarrow>
                  (let topic_names = map name_of topic_desc
                   in rank_topics L topic_names topic_dist top_k)))"

subsection \<open>The topic data snapshot\<close>

text \<open>The values a \<^verbatim>\<open>TopicData\<close> dictionary holds; \<open>PyNone\<close> is Python's \<^verbatim>\<open>None\<close>.\<close>

datatype pyval =
    PyNone
  | StrList "string list"
  | Array matrix
  | Counts "nat list list"
  | Embeddings "real list list"
  | Method "state \<Rightarrow> string list \<Rightarrow> real list list option \<Rightarrow> py_error + matrix"

text \<open>Lines 398 to 401: \<^verbatim>\<open>transform\<close>, and \<^verbatim>\<open>fit_transform\<close> on the two caught errors.\<close>

definition transform_or_fit :: "variant \<Rightarrow> state \<Rightarrow> string list \<Rightarrow> real list list
    \<Rightarrow> py_error + (matrix \<times> state)" where
  "transform_or_fit v s corpus embeddings =
     (case (case transform v of
              None \<Rightarrow> Inl AttributeError
            | Some f \<Rightarrow> f s corpus (Some embeddings)) of
        Inr document_topic_matrix \<Rightarrow> Inr (document_topic_matrix, s)
      | Inl AttributeError \<Rightarrow> fit_transform v s corpus (Some embeddings)
      | Inl NotFittedError \<Rightarrow> fit_transform v s corpus (Some embeddings)
      | Inl e \<Rightarrow> Inl e)"

text \<open>\<^verbatim>\<open>getattr(self, "transform", None)\<close>.\<close>

definition getattr_transform :: "variant \<Rightarrow> pyval" where
  "getattr_transform v = (case transform v of None \<Rightarrow> PyNone | Some f \<Rightarrow> Method f)"

text \<open>Lines 396 and 397: the embeddings passed in, or those of the encoder.\<close>

definition embeddings_or_encode :: "variant \<Rightarrow> string list \<Rightarrow> real list list option
    \<Rightarrow> py_error + real list list" where
  "embeddings_or_encode v corpus embeddings =
     (case embeddings of
        None \<Rightarrow> encode_documents v corpus
      | Some e \<Rightarrow> Inr e)"

definition prepare_topic_data :: "lib \<Rightarrow> variant \<Rightarrow> state \<Rightarrow> string list
    \<Rightarrow> real list list option \<Rightarrow> py_error + ((string \<times> pyval) list \<times> state)" where
  "prepare_topic_data L v s corpus embeddings =
     (case embeddings_or_encode v corpus embeddings of
        Inl e \<Rightarrow> Inl e
      | Inr embeddings \<Rightarrow>
          (case transform_or_fit v s corpus embeddings of
             Inl e \<Rightarrow> Inl e
           | Inr (document_topic_matrix, s') \<Rightarrow>
               (case vectorizer_transform v s' corpus of
                  Inl e \<Rightarrow> Inl e
                | Inr dtm \<Rightarrow>
                    (case get_vocab s' of
                       Inl e \<Rightarrow> Inl e
                     | Inr vocab \<Rightarrow>
                         (case components s' of
                            None \<Rightarrow> Inl AttributeError
                          | Some C \<Rightarrow>
                              (case topic_names L s' of
                                 Inl e \<Rightarrow> Inl e
                               | Inr names \<Rightarrow>
                                   Inr ([(''corpus'', StrList corpus),
                                         (''document_term_matrix'', Counts dtm),
                                         (''vocab'', StrList vocab),
                                         (''document_topic_matrix'', Array document_topic_matrix),
                                         (''document_representation'', Embeddings embeddings),
                                         (''topic_term_matrix'', Array C),
                                         (''transform'', getattr_transform v),
                                         (''topic_names'', StrList names)], s')))))))"

subsection \<open>A reference library\<close>

text \<open>
  A stable insertion sort of the positions by their value serves both as \<open>argsort\<close> and
  as \<open>argpartition\<close> (a sorted array is partitioned at every place). The reference format
  rounds to hundredths, a half to the even neighbour, and writes the sign of every negative
  value, as Python's \<^verbatim>\<open>.2f\<close> does on the value a float holds (\<^verbatim>\<open>0.125\<close> gives \<^verbatim>\<open>0.12\<close>,
  \<^verbatim>\<open>-0.001\<close> gives \<^verbatim>\<open>-0.00\<close>).
\<close>

definition ref_argsort :: "real list \<Rightarrow> nat list" where
  "ref_argsort a = sort_key (\<lambda>i. a ! i) [0..<length a]"

definition two_digits :: "nat \<Rightarrow> string" where
  "two_digits n = [digit_char (n div 10), digit_char (n mod 10)]"

definition round_half_even :: "real \<Rightarrow> int" where
  "round_half_even y =
     (let f = \<lfloor>y\<rfloor>; r = y - of_int f
      in if r < 1 / 2 then f
         else if 1 / 2 < r then f + 1
         else if even f then f else f + 1)"

definition ref_format_2f :: "real \<Rightarrow> string" where
  "ref_format_2f x =
     (let h = round_half_even (\<bar>x\<bar> * 100)
      in (if x < 0 then ''-'' else []) @
         digits (nat (h div 100)) @ ''.'' @ two_digits (nat (h mod 100)))"

definition ref_lib :: lib where
  "ref_lib = \<lparr>argpartition = (\<lambda>a kth. ref_argsort a), argsort = ref_argsort,
              format_2f = ref_format_2f\<rparr>"

subsection \<open>Fitted models and example inputs\<close>

text \<open>
  The invariants of a fitted model: the topic-term matrix and the vocabulary exist, every
  row has one weight per vocabulary term, the terms are unique, and a learned label set
  has one label per topic.
\<close>

definition fitted :: "state \<Rightarrow> bool" where
  "fitted s =
     (case components s of
        None \<Rightarrow> False
      | Some C \<Rightarrow>
          (case vocabulary s of
             None \<Rightarrow> False
           | Some vocab \<Rightarrow>
               wf_matrix C \<and> ncols C = length vocab \<and> distinct vocab \<and>
               (case classes s of
                  None \<Rightarrow> True
                | Some cs \<Rightarrow> length cs = length (rows C))))"

definition strictly_descending :: "real list \<Rightarrow> bool" where
  "strictly_descending xs = sorted_wrt (\<lambda>x y. x > y) xs"

definition non_increasing :: "real list \<Rightarrow> bool" where
  "non_increasing xs = sorted_wrt (\<lambda>x y. x \<ge> y) xs"

text \<open>Three topics over three terms; topic 0 is the row of the scenario.\<close>

definition sale_state :: state where
  "sale_state =
     \<lparr>components = Some \<lparr>ncols = 3, rows = [[0.9, 0.5, 0.2], [0.1, 0.3, 0.6], [0.4, 0.8, 0.7]]\<rparr>,
      classes = None,
      vocabulary = Some [''sale'', ''price'', ''item'']\<rparr>"

text \<open>One topic in which two terms have the same weight.\<close>

definition tie_state :: state where
  "tie_state =
     \<lparr>components = Some \<lparr>ncols = 3, rows = [[0.5, 0.5, 0.2]]\<rparr>,
      classes = None,
      vocabulary = Some [''sale'', ''price'', ''item'']\<rparr>"

text \<open>
  What one pass of the loop of \<^verbatim>\<open>get_topics\<close> yields for a row \<open>fst ch\<close> and selected
  positions \<open>snd ch\<close>: the same positions, reordered so that the weights do not increase.
\<close>

definition row_result :: "string list \<Rightarrow> real list \<times> nat list \<Rightarrow> string list \<times> real list \<Rightarrow> bool" where
  "row_result vocab ch t =
     (\<exists>idx. t = (map (\<lambda>i. vocab ! i) idx, map (\<lambda>i. fst ch ! i) idx) \<and>
        mset idx = mset (snd ch) \<and> sorted_wrt (\<lambda>x y. x \<ge> y) (map (\<lambda>i. fst ch ! i) idx))"

text \<open>Three topics with the learned labels \<open>-1, 0, 1\<close> over five terms.\<close>

definition labelled_state :: state where
  "labelled_state =
     \<lparr>components = Some \<lparr>ncols = 5, rows = [[5, 4, 3, 2, 1], [1, 2, 3, 4, 5], [2, 5, 1, 4, 3]]\<rparr>,
      classes = Some [- 1, 0, 1],
      vocabulary = Some [''car'', ''sale'', ''price'', ''item'', ''offer'']\<rparr>"

text \<open>One topic over a vocabulary of exactly four terms.\<close>

definition four_state :: state where
  "four_state =
     \<lparr>components = Some \<lparr>ncols = 4, rows = [[4, 3, 2, 1]]\<rparr>,
      classes = None,
      vocabulary = Some [''car'', ''sale'', ''price'', ''item'']\<rparr>"

text \<open>A transductive variant: no \<^verbatim>\<open>transform\<close>; fitting yields \<open>labelled_state\<close>.\<close>

definition transductive_variant :: variant where
  "transductive_variant =
     \<lparr>transform = None,
      fit_transform = (\<lambda>s corpus embeddings.
         Inr (\<lparr>ncols = 3, rows = map (\<lambda>d. [1, 0, 0]) corpus\<rparr>, labelled_state)),
      encode = (\<lambda>corpus. Inr (map (\<lambda>d. [0]) corpus)),
      vectorizer_transform = (\<lambda>s corpus. Inr (map (\<lambda>d. [0, 0, 0, 0, 0]) corpus))\<rparr>"

text \<open>
  A variant with \<^verbatim>\<open>transform\<close>, which raises \<^verbatim>\<open>NotFittedError\<close> before fitting and rejects an
  empty corpus; and the state of a model that has not been fitted.
\<close>

definition inductive_variant :: variant where
  "inductive_variant =
     \<lparr>transform = Some (\<lambda>s corpus embeddings.
         if components s = None then Inl NotFittedError
         else if corpus = [] then Inl (ValueError ''empty corpus'')
         else Inr \<lparr>ncols = 3, rows = map (\<lambda>d. [0, 1, 0]) corpus\<rparr>),
      fit_transform = (\<lambda>s corpus embeddings.
         Inr (\<lparr>ncols = 3, rows = map (\<lambda>d. [1, 0, 0]) corpus\<rparr>, labelled_state)),
      encode = (\<lambda>corpus. Inr (map (\<lambda>d. [0]) corpus)),
      vectorizer_transform = (\<lambda>s corpus. Inr (map (\<lambda>d. [0, 0, 0, 0, 0]) corpus))\<rparr>"

definition unfitted_state :: state where
  "unfitted_state = \<lparr>components = None, classes = None, vocabulary = None\<rparr>"

text \<open>Three documents scored on two topics, and a corpus of one document.\<close>

definition three_docs :: "string list" where
  "three_docs = [''first  offer'', '' second offer '', ''third'']"

definition three_docs_matrix :: matrix where
  "three_docs_matrix = \<lparr>ncols = 2, rows = [[1, 9], [7, 3], [4, 6]]\<rparr>"

definition one_doc_matrix :: matrix where
  "one_doc_matrix = \<lparr>ncols = 2, rows = [[1, 9]]\<rparr>"

text \<open>
  \<open>weave gaps ws\<close> is the text \<open>g\<^sub>0 w\<^sub>1 g\<^sub>1 \<dots> w\<^sub>n g\<^sub>n\<close>: the words \<open>ws\<close> with the gaps \<open>gaps\<close>
  before, between and after them. It states what whitespace normalisation keeps of a
  document.
\<close>

fun weave :: "string list \<Rightarrow> string list \<Rightarrow> string" where
  "weave (g # gaps) (w # ws) = g @ w @ weave gaps ws"
| "weave gaps [] = concat gaps"
| "weave [] ws = concat ws"

section \<open>Properties\<close>

subsection \<open>Permutations of positions\<close>

lemma is_perm_mset: "is_perm p n \<Longrightarrow> mset p = mset [0..<n]"
  unfolding is_perm_def by (metis mset_sort)

lemma is_perm_set: "is_perm p n \<Longrightarrow> set p = {0..<n}"
  by (drule is_perm_mset) (metis set_mset_mset set_upt)

lemma is_perm_distinct: "is_perm p n \<Longrightarrow> distinct p"
  by (drule is_perm_mset) (metis distinct_upt mset_eq_imp_distinct_iff)

lemma is_perm_length: "is_perm p n \<Longrightarrow> length p = n"
  by (drule is_perm_mset) (metis length_upt mset_eq_length minus_nat.diff_0)

lemma take_idx_Inr: "set idx \<subseteq> {..<length a} \<Longrightarrow> take_idx a idx = Inr (map (\<lambda>i. a ! i) idx)"
  by (auto simp: take_idx_def list_all_iff)

lemma sorted_neg: "sorted (map uminus (xs :: real list)) = sorted_wrt (\<ge>) xs"
  by (simp add: sorted_map)

lemma mset_map_nth_perm:
  assumes "is_perm q (length h)"
  shows "mset (map (\<lambda>i. h ! i) q) = mset h"
proof -
  have "mset (map (\<lambda>i. h ! i) q) = image_mset (\<lambda>i. h ! i) (mset q)" by simp
  also have "\<dots> = image_mset (\<lambda>i. h ! i) (mset [0..<length h])"
    using is_perm_mset [OF assms] by simp
  also have "\<dots> = mset (map (\<lambda>i. h ! i) [0..<length h])" by simp
  also have "\<dots> = mset h" by (simp add: map_nth)
  finally show ?thesis .
qed

subsection \<open>Selecting and ordering, for every library that meets the contract\<close>

lemma partition_take:
  assumes ok: "lib_ok L" and k: "k < length a"
  defines "high \<equiv> take k (argpartition L a k)"
  shows "length high = k" "distinct high" "set high \<subseteq> {..<length a}"
    "\<forall>i\<in>set high. \<forall>j<length a. j \<notin> set high \<longrightarrow> a ! i \<le> a ! j"
proof -
  define p where "p = argpartition L a k"
  have part: "partitioned a k p" using ok k by (simp add: lib_ok_def p_def)
  then have perm: "is_perm p (length a)" by (simp add: partitioned_def)
  have lp: "length p = length a" by (rule is_perm_length [OF perm])
  have sp: "set p = {0..<length a}" by (rule is_perm_set [OF perm])
  have dp: "distinct p" by (rule is_perm_distinct [OF perm])
  have h: "high = take k p" by (simp add: high_def p_def)
  show "length high = k" using lp k by (simp add: h)
  show "distinct high" using dp by (simp add: h)
  show "set high \<subseteq> {..<length a}" using sp set_take_subset [of k p] by (auto simp: h)
  show "\<forall>i\<in>set high. \<forall>j<length a. j \<notin> set high \<longrightarrow> a ! i \<le> a ! j"
  proof (intro ballI allI impI)
    fix i j assume i: "i \<in> set high" and j: "j < length a" and nj: "j \<notin> set high"
    have lo: "a ! i \<le> a ! (p ! k)"
      using part i by (simp add: partitioned_def list_all_iff h)
    have "j \<in> set p" using sp j by simp
    then have "j \<in> set (take k p) \<union> set (drop k p)"
      by (metis append_take_drop_id set_append)
    then have "j \<in> set (drop k p)" using nj h by simp
    moreover have "drop k p = p ! k # drop (Suc k) p"
      using k lp by (simp add: Cons_nth_drop_Suc)
    ultimately have "j = p ! k \<or> j \<in> set (drop (Suc k) p)" by simp
    then have "a ! (p ! k) \<le> a ! j"
      using part by (auto simp: partitioned_def list_all_iff)
    with lo show "a ! i \<le> a ! j" by simp
  qed
qed

text \<open>
  Reordering selected positions \<open>high\<close> of \<open>a\<close> by \<open>argsort\<close> of the negated values keeps
  the positions and puts their values in non-increasing order.
\<close>

lemma reorder_desc:
  assumes ok: "lib_ok L" and high: "set high \<subseteq> {..<length a}"
  defines "idx \<equiv> map (\<lambda>i. high ! i) (argsort L (neg (map (\<lambda>i. a ! i) high)))"
  shows "take_idx high (argsort L (neg (map (\<lambda>i. a ! i) high))) = Inr idx"
    "mset idx = mset high" "sorted_wrt (\<ge>) (map (\<lambda>i. a ! i) idx)"
proof -
  define importance where "importance = map (\<lambda>i. a ! i) high"
  define q where "q = argsort L (neg importance)"
  have i: "idx = map (\<lambda>i. high ! i) q" by (simp add: idx_def q_def importance_def)
  have as: "argsorted (neg importance) q"
    using ok by (simp add: lib_ok_def q_def)
  then have perm: "is_perm q (length high)"
    by (simp add: argsorted_def neg_def importance_def)
  have qset: "set q = {0..<length high}" by (rule is_perm_set [OF perm])
  show "take_idx high (argsort L (neg (map (\<lambda>i. a ! i) high))) = Inr idx"
    unfolding idx_def by (rule take_idx_Inr) (use qset in \<open>auto simp: q_def importance_def\<close>)
  show "mset idx = mset high"
    unfolding i by (rule mset_map_nth_perm [OF perm])
  have "map (\<lambda>i. neg importance ! i) q = map uminus (map (\<lambda>i. a ! i) idx)"
    using qset by (auto simp: i neg_def importance_def)
  moreover have "sorted (map (\<lambda>i. neg importance ! i) q)"
    using as by (simp add: argsorted_def)
  ultimately show "sorted_wrt (\<ge>) (map (\<lambda>i. a ! i) idx)"
    by (simp only: sorted_neg)
qed

lemma top_of_row_ok:
  assumes ok: "lib_ok L"
    and high: "set high \<subseteq> {..<length component}"
    and len: "length component \<le> length vocab"
  shows "\<exists>idx. top_of_row L vocab component high
            = Inr (map (\<lambda>i. vocab ! i) idx, map (\<lambda>i. component ! i) idx) \<and>
          mset idx = mset high \<and> sorted_wrt (\<ge>) (map (\<lambda>i. component ! i) idx)"
proof -
  define idx where "idx = map (\<lambda>i. high ! i) (argsort L (neg (map (\<lambda>i. component ! i) high)))"
  note r = reorder_desc [OF ok high, folded idx_def]
  have sidx: "set idx = set high" using r(2) by (metis set_mset_mset)
  have e1: "take_idx component high = Inr (map (\<lambda>i. component ! i) high)"
    by (rule take_idx_Inr [OF high])
  have e3: "take_idx component idx = Inr (map (\<lambda>i. component ! i) idx)"
    by (rule take_idx_Inr) (use sidx high in auto)
  have e4: "take_idx vocab idx = Inr (map (\<lambda>i. vocab ! i) idx)"
    by (rule take_idx_Inr) (use sidx high len in auto)
  have "top_of_row L vocab component high
          = Inr (map (\<lambda>i. vocab ! i) idx, map (\<lambda>i. component ! i) idx)"
    unfolding top_of_row_def by (simp add: e1 r(1) e3 e4)
  with r(2,3) show ?thesis by blast
qed

lemma top_loop_ok:
  assumes ok: "lib_ok L"
    and all: "\<forall>(c, h)\<in>set xs. set h \<subseteq> {..<length c} \<and> length c \<le> length vocab"
  shows "\<exists>tops. top_loop L vocab xs = Inr tops \<and> list_all2 (row_result vocab) xs tops"
  using all
proof (induction xs)
  case Nil
  then show ?case by simp
next
  case (Cons x xs)
  obtain c h where x: "x = (c, h)" by (cases x)
  from Cons.prems x have "set h \<subseteq> {..<length c}" "length c \<le> length vocab" by auto
  from top_of_row_ok [OF ok this] obtain idx where
    t: "top_of_row L vocab c h = Inr (map (\<lambda>i. vocab ! i) idx, map (\<lambda>i. c ! i) idx)"
    and m: "mset idx = mset h" and srt: "sorted_wrt (\<ge>) (map (\<lambda>i. c ! i) idx)" by blast
  from Cons obtain tops where l: "top_loop L vocab xs = Inr tops"
    and r: "list_all2 (row_result vocab) xs tops" by auto
  have "row_result vocab x (map (\<lambda>i. vocab ! i) idx, map (\<lambda>i. c ! i) idx)"
    unfolding row_result_def x using m srt by auto
  then show ?case using t l r by (simp add: x)
qed

subsection \<open>The reference library meets the contract\<close>

lemma sort_key_upt_perm: "is_perm (sort_key f [0..<n]) n"
  unfolding is_perm_def by (rule properties_for_sort) simp_all

lemma ref_argsort_argsorted: "argsorted a (ref_argsort a)"
  unfolding argsorted_def ref_argsort_def
  by (simp add: sort_key_upt_perm)

lemma ref_argsort_partitioned:
  assumes "k < length a"
  shows "partitioned a k (ref_argsort a)"
proof -
  define p where "p = ref_argsort a"
  have as: "argsorted a p" by (simp add: p_def ref_argsort_argsorted)
  then have perm: "is_perm p (length a)" and srt: "sorted (map (\<lambda>i. a ! i) p)"
    by (simp_all add: argsorted_def)
  have lp: "length p = length a" by (rule is_perm_length [OF perm])
  have mono: "\<And>i j. i \<le> j \<Longrightarrow> j < length p \<Longrightarrow> a ! (p ! i) \<le> a ! (p ! j)"
    using sorted_nth_mono [OF srt] by force
  have "list_all (\<lambda>i. a ! i \<le> a ! (p ! k)) (take k p)"
    unfolding list_all_iff
  proof
    fix i assume "i \<in> set (take k p)"
    then obtain m where "m < k" "m < length p" "i = p ! m"
      by (auto simp: in_set_conv_nth)
    then show "a ! i \<le> a ! (p ! k)" using mono [of m k] assms lp by simp
  qed
  moreover have "list_all (\<lambda>i. a ! (p ! k) \<le> a ! i) (drop (Suc k) p)"
    unfolding list_all_iff
  proof
    fix i assume "i \<in> set (drop (Suc k) p)"
    then obtain m where "m < length p - Suc k" "i = p ! (Suc k + m)"
      by (auto simp: in_set_conv_nth)
    then show "a ! (p ! k) \<le> a ! i" using mono [of k "Suc k + m"] by simp
  qed
  ultimately show ?thesis using perm by (simp add: partitioned_def p_def)
qed

lemma ref_lib_ok: "lib_ok ref_lib"
  by (simp add: lib_ok_def ref_lib_def ref_argsort_argsorted ref_argsort_partitioned)

lemma get_topics_rows:
  assumes ok: "lib_ok L" and fit: "fitted s"
    and C: "components s = Some C" and V: "vocabulary s = Some vocab"
    and k0: "0 < top_k" and k1: "top_k < int (length vocab)"
  shows "\<exists>ts. get_topics L s top_k = Inr ts \<and> length ts = length (rows C) \<and>
     (\<forall>j<length (rows C). \<exists>idx.
        ts ! j = (classes_or_range s (length (rows C)) ! j,
                  map (\<lambda>i. (vocab ! i, rows C ! j ! i)) idx) \<and>
        length idx = nat top_k \<and> distinct idx \<and> set idx \<subseteq> {..<length vocab} \<and>
        sorted_wrt (\<ge>) (map (\<lambda>i. rows C ! j ! i) idx) \<and>
        (\<forall>i\<in>set idx. \<forall>i'<length vocab. i' \<notin> set idx \<longrightarrow> rows C ! j ! i' \<le> rows C ! j ! i))"
proof -
  define k where "k = nat top_k"
  define n where "n = length (rows C)"
  define cls where "cls = classes_or_range s n"
  define sel where "sel = (\<lambda>r. take k (argpartition L (neg r) k))"
  have wf: "\<forall>r\<in>set (rows C). length r = length vocab"
    using fit C V by (simp add: fitted_def wf_matrix_def list_all_iff)
  have nc: "ncols C = length vocab" using fit C V by (simp add: fitted_def)
  have lcls: "length cls = n"
    using fit C V by (auto simp: fitted_def cls_def classes_or_range_def n_def split: option.splits)
  have kn: "k < length vocab" using k0 k1 by (simp add: k_def)
  have parts: "np_argpartition2 L C top_k = Inr (map (\<lambda>r. argpartition L (neg r) k) (rows C))"
    using k0 k1 nc by (auto simp: np_argpartition2_def Let_def k_def)
  have hi: "map (py_take top_k) (map (\<lambda>r. argpartition L (neg r) k) (rows C)) = map sel (rows C)"
    using k0 by (simp add: py_take_def sel_def k_def)
  have z: "zip (rows C) (map sel (rows C)) = map (\<lambda>r. (r, sel r)) (rows C)"
    by (simp add: zip_map2 zip_same_conv_map)
  have pt: "\<And>r. r \<in> set (rows C) \<Longrightarrow> length (sel r) = k \<and> distinct (sel r) \<and>
      set (sel r) \<subseteq> {..<length vocab} \<and>
      (\<forall>i\<in>set (sel r). \<forall>j<length vocab. j \<notin> set (sel r) \<longrightarrow> r ! j \<le> r ! i)"
  proof -
    fix r assume r: "r \<in> set (rows C)"
    then have lr: "length r = length vocab" using wf by simp
    then have "k < length (neg r)" using kn by (simp add: neg_def)
    note p = partition_take [OF ok this]
    have "\<forall>i\<in>set (sel r). \<forall>j<length vocab. j \<notin> set (sel r) \<longrightarrow> r ! j \<le> r ! i"
    proof (intro ballI allI impI)
      fix i j assume a: "i \<in> set (sel r)" "j < length vocab" "j \<notin> set (sel r)"
      then have "i < length r" using p(3) lr by (auto simp: sel_def neg_def)
      moreover have "neg r ! i \<le> neg r ! j" using p(4) a lr by (simp add: sel_def neg_def)
      ultimately show "r ! j \<le> r ! i" using a lr by (simp add: neg_def)
    qed
    then show "length (sel r) = k \<and> distinct (sel r) \<and> set (sel r) \<subseteq> {..<length vocab} \<and>
      (\<forall>i\<in>set (sel r). \<forall>j<length vocab. j \<notin> set (sel r) \<longrightarrow> r ! j \<le> r ! i)"
      using p(1,2,3) lr by (simp add: sel_def neg_def)
  qed
  have "\<forall>(c, h)\<in>set (map (\<lambda>r. (r, sel r)) (rows C)).
          set h \<subseteq> {..<length c} \<and> length c \<le> length vocab"
    using pt wf by auto
  from top_loop_ok [OF ok this] obtain tops where
    tl: "top_loop L vocab (map (\<lambda>r. (r, sel r)) (rows C)) = Inr tops"
    and la: "list_all2 (row_result vocab) (map (\<lambda>r. (r, sel r)) (rows C)) tops" by blast
  have lt: "length tops = n" using la by (auto simp: n_def dest: list_all2_lengthD)
  define ts where "ts = map (\<lambda>(topic, words, scores). (topic, zip words scores)) (zip cls tops)"
  have tl': "top_loop L vocab (zip (rows C)
      (map (py_take top_k) (map (\<lambda>r. argpartition L (neg r) k) (rows C)))) = Inr tops"
    using tl by (simp only: hi z)
  have g: "get_topics L s top_k = Inr ts"
    unfolding get_topics_def
    by (simp add: C V Let_def parts tl' get_vocab_def ts_def cls_def n_def del: map_map)
  have lts: "length ts = n" by (simp add: ts_def lcls lt)
  have "\<exists>idx. ts ! j = (cls ! j, map (\<lambda>i. (vocab ! i, rows C ! j ! i)) idx) \<and>
        length idx = k \<and> distinct idx \<and> set idx \<subseteq> {..<length vocab} \<and>
        sorted_wrt (\<ge>) (map (\<lambda>i. rows C ! j ! i) idx) \<and>
        (\<forall>i\<in>set idx. \<forall>i'<length vocab. i' \<notin> set idx \<longrightarrow> rows C ! j ! i' \<le> rows C ! j ! i)"
    if j: "j < n" for j
  proof -
    let ?r = "rows C ! j"
    have rin: "?r \<in> set (rows C)" using j by (simp add: n_def)
    have "row_result vocab (?r, sel ?r) (tops ! j)"
      using list_all2_nthD [OF la, of j] j by (simp add: n_def)
    then obtain idx where t: "tops ! j = (map (\<lambda>i. vocab ! i) idx, map (\<lambda>i. ?r ! i) idx)"
      and m: "mset idx = mset (sel ?r)" and srt: "sorted_wrt (\<ge>) (map (\<lambda>i. ?r ! i) idx)"
      by (auto simp: row_result_def)
    have s: "set idx = set (sel ?r)" using m by (metis set_mset_mset)
    have l: "length idx = k" using m pt [OF rin] by (metis mset_eq_length)
    have d: "distinct idx" using m pt [OF rin] by (metis mset_eq_imp_distinct_iff)
    have "ts ! j = (cls ! j, zip (map (\<lambda>i. vocab ! i) idx) (map (\<lambda>i. ?r ! i) idx))"
      using j lcls lt t by (simp add: ts_def)
    also have "zip (map (\<lambda>i. vocab ! i) idx) (map (\<lambda>i. ?r ! i) idx)
                 = map (\<lambda>i. (vocab ! i, ?r ! i)) idx"
      by (simp add: zip_map_map zip_same_conv_map)
    finally have e: "ts ! j = (cls ! j, map (\<lambda>i. (vocab ! i, ?r ! i)) idx)" .
    have top: "\<forall>i\<in>set idx. \<forall>i'<length vocab. i' \<notin> set idx \<longrightarrow> ?r ! i' \<le> ?r ! i"
      using pt [OF rin] by (simp add: s)
    have sub: "set idx \<subseteq> {..<length vocab}" using pt [OF rin] by (simp add: s)
    show ?thesis using e l d sub srt top by blast
  qed
  with g lts show ?thesis by (auto simp: n_def cls_def k_def)
qed

lemma desc_distinct_strict:
  "sorted_wrt (\<ge>) (xs :: real list) \<Longrightarrow> distinct xs \<Longrightarrow> sorted_wrt (>) xs"
  by (induction xs) (auto simp: less_le)

lemma scenario_idx:
  fixes r :: "real list"
  defines "r \<equiv> [0.9, 0.5, 0.2]"
  assumes l: "length idx = 2" and d: "distinct idx" and sub: "set idx \<subseteq> {..<3}"
    and srt: "sorted_wrt (\<ge>) (map (\<lambda>i. r ! i) idx)"
    and top: "\<forall>i\<in>set idx. \<forall>i'<3. i' \<notin> set idx \<longrightarrow> r ! i' \<le> r ! i"
  shows "idx = [0, 1]"
proof -
  obtain a b where i: "idx = [a, b]"
    using l by (metis length_0_conv length_Suc_conv numeral_2_eq_2)
  have ab: "a \<noteq> b" "a < 3" "b < 3" using d sub by (auto simp: i)
  have r0: "r ! 0 = 0.9" and r1: "r ! 1 = 0.5" and r2: "r ! 2 = 0.2"
    by (simp_all add: r_def)
  have vals: "\<And>x. x < 3 \<Longrightarrow> x = 0 \<or> x = 1 \<or> x = (2::nat)" by auto
  have low: "\<And>x. x < 3 \<Longrightarrow> x \<noteq> 0 \<Longrightarrow> r ! x \<le> 0.5"
    using vals r1 r2 by force
  have in0: "0 \<in> set idx"
  proof (rule ccontr)
    assume n: "0 \<notin> set idx"
    then have "a \<noteq> 0" by (auto simp: i)
    moreover have "r ! 0 \<le> r ! a" using top n by (simp add: i)
    ultimately show False using low [of a] ab(2) r0 by simp
  qed
  have in1: "1 \<in> set idx"
  proof (rule ccontr)
    assume n: "1 \<notin> set idx"
    then have "a \<noteq> 1" "b \<noteq> 1" by (auto simp: i)
    then have "2 \<in> set idx" using in0 ab vals [of a] vals [of b] by (auto simp: i)
    moreover have "(1::nat) < 3" by simp
    ultimately have "r ! 1 \<le> r ! 2" using top n by blast
    then show False using r1 r2 by simp
  qed
  have "a = 0 \<and> b = 1 \<or> a = 1 \<and> b = 0" using in0 in1 ab(1) by (auto simp: i)
  moreover have "r ! b \<le> r ! a" using srt by (simp add: i)
  ultimately show ?thesis using r0 r1 by (auto simp: i)
qed

subsection \<open>Topic extraction\<close>

lemma fitted_sale_state: "fitted sale_state"
  by (simp add: fitted_def sale_state_def wf_matrix_def)

lemma get_topics_tie_state:
  "get_topics ref_lib tie_state 2 = Inr [(0, [(''sale'', 0.5), (''price'', 0.5)])]"
  by (simp add: get_topics_def tie_state_def np_argpartition2_def ref_lib_def ref_argsort_def
      neg_def sort_key_def py_take_def get_vocab_def top_of_row_def take_idx_def
      classes_or_range_def Let_def)

text \<open>
  Claim C1, as amended. For a fitted model and \<open>0 < top_k < vocab_size\<close>, \<^verbatim>\<open>get_topics\<close>
  returns one entry per topic, and for each topic exactly \<open>top_k\<close> (term, weight) pairs,
  ordered by non-increasing weight (strictly descending when the weights of the row are
  pairwise distinct), with no duplicate terms, each pair a vocabulary term with its own
  weight in that row. For a row \<open>[0.9, 0.5, 0.2]\<close> over the vocabulary
  \<open>[sale, price, item]\<close> and \<open>top_k = 2\<close> the pairs are \<open>[(sale, 0.9), (price, 0.5)]\<close>.
  This holds for every library that meets NumPy's contract.
\<close>

theorem get_topics_top_k:
  assumes ok: "lib_ok L" and fit: "fitted s"
    and C: "components s = Some C" and V: "vocabulary s = Some vocab"
    and k0: "0 < top_k" and k1: "top_k < int (length vocab)"
  shows "\<exists>ts. get_topics L s top_k = Inr ts \<and> length ts = length (rows C) \<and>
     (\<forall>j<length (rows C).
        length (snd (ts ! j)) = nat top_k \<and>
        non_increasing (map snd (snd (ts ! j))) \<and>
        (distinct (rows C ! j) \<longrightarrow> strictly_descending (map snd (snd (ts ! j)))) \<and>
        distinct (map fst (snd (ts ! j))) \<and>
        set (snd (ts ! j)) \<subseteq> set (zip vocab (rows C ! j)) \<and>
        (vocab = [''sale'', ''price'', ''item''] \<and> rows C ! j = [0.9, 0.5, 0.2] \<and> top_k = 2
           \<longrightarrow> snd (ts ! j) = [(''sale'', 0.9), (''price'', 0.5)]))"
proof -
  from get_topics_rows [OF ok fit C V k0 k1] obtain ts where
    g: "get_topics L s top_k = Inr ts" and lts: "length ts = length (rows C)"
    and rows: "\<forall>j<length (rows C). \<exists>idx.
        ts ! j = (classes_or_range s (length (rows C)) ! j,
                  map (\<lambda>i. (vocab ! i, rows C ! j ! i)) idx) \<and>
        length idx = nat top_k \<and> distinct idx \<and> set idx \<subseteq> {..<length vocab} \<and>
        sorted_wrt (\<ge>) (map (\<lambda>i. rows C ! j ! i) idx) \<and>
        (\<forall>i\<in>set idx. \<forall>i'<length vocab. i' \<notin> set idx \<longrightarrow> rows C ! j ! i' \<le> rows C ! j ! i)"
    by blast
  have dv: "distinct vocab" using fit C V by (simp add: fitted_def)
  have wf: "\<forall>r\<in>set (rows C). length r = length vocab"
    using fit C V by (simp add: fitted_def wf_matrix_def list_all_iff)
  have "length (snd (ts ! j)) = nat top_k \<and>
        non_increasing (map snd (snd (ts ! j))) \<and>
        (distinct (rows C ! j) \<longrightarrow> strictly_descending (map snd (snd (ts ! j)))) \<and>
        distinct (map fst (snd (ts ! j))) \<and>
        set (snd (ts ! j)) \<subseteq> set (zip vocab (rows C ! j)) \<and>
        (vocab = [''sale'', ''price'', ''item''] \<and> rows C ! j = [0.9, 0.5, 0.2] \<and> top_k = 2
           \<longrightarrow> snd (ts ! j) = [(''sale'', 0.9), (''price'', 0.5)])"
    if j: "j < length (rows C)" for j
  proof -
    let ?r = "rows C ! j"
    from rows [rule_format, OF j] obtain idx where
      full: "ts ! j = (classes_or_range s (length (rows C)) ! j,
                       map (\<lambda>i. (vocab ! i, ?r ! i)) idx)"
      and l: "length idx = nat top_k" and d: "distinct idx"
      and sub: "set idx \<subseteq> {..<length vocab}"
      and srt: "sorted_wrt (\<ge>) (map (\<lambda>i. ?r ! i) idx)"
      and top: "\<forall>i\<in>set idx. \<forall>i'<length vocab. i' \<notin> set idx \<longrightarrow> ?r ! i' \<le> ?r ! i"
      by blast
    have t: "snd (ts ! j) = map (\<lambda>i. (vocab ! i, ?r ! i)) idx" by (simp add: full)
    have lr: "length ?r = length vocab" using wf j by simp
    have ms: "map snd (snd (ts ! j)) = map (\<lambda>i. ?r ! i) idx" by (simp add: t comp_def)
    have mf: "map fst (snd (ts ! j)) = map (\<lambda>i. vocab ! i) idx" by (simp add: t comp_def)
    have c1: "length (snd (ts ! j)) = nat top_k" by (simp add: t l)
    have c2: "non_increasing (map snd (snd (ts ! j)))"
      unfolding non_increasing_def ms by (rule srt)
    have c3: "strictly_descending (map snd (snd (ts ! j)))" if dr: "distinct ?r"
    proof -
      have "inj_on (\<lambda>i. ?r ! i) (set idx)"
        by (rule inj_on_nth [OF dr]) (use sub lr in auto)
      then have "distinct (map (\<lambda>i. ?r ! i) idx)" using d by (simp add: distinct_map)
      from desc_distinct_strict [OF srt this] show ?thesis
        by (simp add: strictly_descending_def ms)
    qed
    have c4: "distinct (map fst (snd (ts ! j)))"
    proof -
      have "inj_on (\<lambda>i. vocab ! i) (set idx)"
        by (rule inj_on_nth [OF dv]) (use sub in auto)
      then show ?thesis using d by (simp add: mf distinct_map)
    qed
    have c5: "set (snd (ts ! j)) \<subseteq> set (zip vocab ?r)"
    proof
      fix p assume "p \<in> set (snd (ts ! j))"
      then obtain i where i: "i \<in> set idx" and p: "p = (vocab ! i, ?r ! i)"
        by (auto simp: t)
      then have "i < length vocab" "i < length ?r" using sub lr by auto
      then show "p \<in> set (zip vocab ?r)" unfolding in_set_zip p by auto
    qed
    have c6: "snd (ts ! j) = [(''sale'', 0.9), (''price'', 0.5)]"
      if sc: "vocab = [''sale'', ''price'', ''item''] \<and> ?r = [0.9, 0.5, 0.2] \<and> top_k = 2"
    proof -
      have v3: "length vocab = 3" and l2: "length idx = 2" using sc l by simp_all
      have r: "?r = [0.9, 0.5, 0.2]" using sc by simp
      have "idx = [0, 1]"
        using l2 d sub [unfolded v3] srt [unfolded r] top [unfolded v3 r]
        by (rule scenario_idx)
      then show ?thesis using sc by (simp add: t)
    qed
    from c1 c2 c3 c4 c5 c6 show ?thesis by blast
  qed
  with g lts show ?thesis by blast
qed

text \<open>The theorem at the three-topic model \<open>sale_state\<close>, with the reference library.\<close>

theorem get_topics_top_k_witness:
  "lib_ok ref_lib \<and> fitted sale_state \<and>
   (\<exists>ts. get_topics ref_lib sale_state 2 = Inr ts \<and> length ts = 3 \<and>
      snd (ts ! 0) = [(''sale'', 0.9), (''price'', 0.5)] \<and>
      length (snd (ts ! 1)) = 2 \<and> non_increasing (map snd (snd (ts ! 1))))"
proof -
  define C where "C = \<lparr>ncols = 3, rows = [[0.9, 0.5, 0.2], [0.1, 0.3, 0.6], [0.4, 0.8, 0.7 :: real]]\<rparr>"
  define vocab where "vocab = [''sale'', ''price'', ''item'']"
  have C: "components sale_state = Some C" and V: "vocabulary sale_state = Some vocab"
    by (simp_all add: sale_state_def C_def vocab_def)
  have k: "(0::int) < 2" "(2::int) < int (length vocab)" by (simp_all add: vocab_def)
  from get_topics_top_k [OF ref_lib_ok fitted_sale_state C V k] obtain ts where
    g: "get_topics ref_lib sale_state 2 = Inr ts" and l: "length ts = length (rows C)"
    and a: "\<forall>j<length (rows C).
        length (snd (ts ! j)) = nat 2 \<and>
        non_increasing (map snd (snd (ts ! j))) \<and>
        (distinct (rows C ! j) \<longrightarrow> strictly_descending (map snd (snd (ts ! j)))) \<and>
        distinct (map fst (snd (ts ! j))) \<and>
        set (snd (ts ! j)) \<subseteq> set (zip vocab (rows C ! j)) \<and>
        (vocab = [''sale'', ''price'', ''item''] \<and> rows C ! j = [0.9, 0.5, 0.2] \<and> (2::int) = 2
           \<longrightarrow> snd (ts ! j) = [(''sale'', 0.9), (''price'', 0.5)])"
    by blast
  have n: "length (rows C) = 3" by (simp add: C_def)
  have "snd (ts ! 0) = [(''sale'', 0.9), (''price'', 0.5)]"
    using a [rule_format, of 0] by (simp add: C_def vocab_def)
  moreover have "length (snd (ts ! 1)) = 2 \<and> non_increasing (map snd (snd (ts ! 1)))"
    using a [rule_format, of 1] by (simp add: n)
  ultimately show ?thesis using g l n ref_lib_ok fitted_sale_state by auto
qed

text \<open>
  Claim C1 as stated fails where two of the selected weights are equal: the two pairs
  returned for \<open>tie_state\<close> both carry the weight \<open>0.5\<close>, so the order is not strict.
  (Which of the two tied terms comes first is the library's choice; the weights are not.)
\<close>

theorem get_topics_ties_counterexample:
  "fitted tie_state \<and>
   get_topics ref_lib tie_state 2 = Inr [(0, [(''sale'', 0.5), (''price'', 0.5)])] \<and>
   \<not> strictly_descending (map snd [(''sale'', 0.5 :: real), (''price'', 0.5)])"
proof (intro conjI)
  show "fitted tie_state"
    by (simp add: fitted_def wf_matrix_def tie_state_def)
  show "get_topics ref_lib tie_state 2 = Inr [(0, [(''sale'', 0.5), (''price'', 0.5)])]"
    by (rule get_topics_tie_state)
  have "\<not> strictly_descending [a, a]" for a
    by (simp add: strictly_descending_def)
  then show "\<not> strictly_descending (map snd [(''sale'', 0.5 :: real), (''price'', 0.5)])"
    by (simp only: list.map snd_conv not_False_eq_True)
qed

subsection \<open>Topic ids\<close>

lemma top_loop_length: "top_loop L vocab xs = Inr tops \<Longrightarrow> length tops = length xs"
proof (induction xs arbitrary: tops)
  case Nil
  then show ?case by simp
next
  case (Cons x xs)
  obtain c h where x: "x = (c, h)" by (cases x)
  from Cons.prems obtain t ts where "top_loop L vocab xs = Inr ts" "tops = t # ts"
    by (auto simp: x split: sum.splits)
  then show ?case using Cons.IH by simp
qed

lemma np_argpartition2_length:
  "np_argpartition2 L M kth = Inr parts \<Longrightarrow> length parts = length (rows M)"
  by (auto simp: np_argpartition2_def Let_def split: if_splits)

lemma get_topics_ids:
  assumes g: "get_topics L s top_k = Inr ts" and C: "components s = Some C"
  shows "map fst ts = take (length (rows C)) (classes_or_range s (length (rows C)))"
proof -
  from g C obtain parts vocab tops where
    p: "np_argpartition2 L C top_k = Inr parts"
    and t: "top_loop L vocab (zip (rows C) (map (py_take top_k) parts)) = Inr tops"
    and ts: "ts = map (\<lambda>(topic, words, scores). (topic, zip words scores))
                   (zip (classes_or_range s (length (rows C))) tops)"
    by (auto simp: get_topics_def Let_def split: sum.splits)
  have "length tops = length (rows C)"
    using top_loop_length [OF t] np_argpartition2_length [OF p] by simp
  moreover have "map fst ts = map fst (zip (classes_or_range s (length (rows C))) tops)"
    by (simp add: ts comp_def case_prod_unfold)
  ultimately show ?thesis by (simp add: map_fst_zip_take min_def)
qed

lemma get_topics_labelled_state:
  "get_topics ref_lib labelled_state 2 =
     Inr [(- 1, [(''car'', 5), (''sale'', 4)]), (0, [(''offer'', 5), (''item'', 4)]),
          (1, [(''sale'', 5), (''item'', 4)])]"
  by (simp add: get_topics_def labelled_state_def np_argpartition2_def ref_lib_def ref_argsort_def
      neg_def sort_key_def py_take_def get_vocab_def top_of_row_def take_idx_def
      classes_or_range_def Let_def)

lemma fitted_labelled_state: "fitted labelled_state"
  by (simp add: fitted_def labelled_state_def wf_matrix_def)

text \<open>
  Claim C8. For a fitted model, the topic ids \<^verbatim>\<open>get_topics\<close> returns are the ids
  \<^verbatim>\<open>get_feature_names_out\<close> returns, and they are the learned label set when the model has
  one and the integers \<open>0, \<dots>, n_topics - 1\<close> otherwise, \<open>n_topics\<close> being the number of rows
  of the topic-term matrix.
\<close>

theorem topic_ids:
  assumes fit: "fitted s" and C: "components s = Some C"
    and g: "get_topics L s top_k = Inr ts"
  shows "get_feature_names_out s = Inr (map fst ts) \<and>
         map fst ts = (case classes s of
                         Some cs \<Rightarrow> cs
                       | None \<Rightarrow> map int [0..<length (rows C)])"
proof -
  have l: "length (classes_or_range s (length (rows C))) = length (rows C)"
    using fit C by (auto simp: fitted_def classes_or_range_def split: option.splits)
  have "map fst ts = classes_or_range s (length (rows C))"
    using get_topics_ids [OF g C] l by simp
  then show ?thesis by (simp add: get_feature_names_out_def C classes_or_range_def Let_def)
qed

text \<open>The theorem at \<open>labelled_state\<close>, whose labels are \<open>-1, 0, 1\<close>.\<close>

theorem topic_ids_witness:
  "fitted labelled_state \<and>
   get_feature_names_out labelled_state = Inr [- 1, 0, 1] \<and>
   map fst [(- 1 :: int, [(''car'', 5 :: real), (''sale'', 4)]), (0, [(''offer'', 5), (''item'', 4)]),
            (1, [(''sale'', 5), (''item'', 4)])] = [- 1, 0, 1]"
proof -
  have C: "components labelled_state =
      Some \<lparr>ncols = 5, rows = [[5, 4, 3, 2, 1], [1, 2, 3, 4, 5], [2, 5, 1, 4, 3]]\<rparr>"
    by (simp add: labelled_state_def)
  from topic_ids [OF fitted_labelled_state C get_topics_labelled_state]
  show ?thesis using fitted_labelled_state by (simp add: labelled_state_def)
qed

subsection \<open>Topic names\<close>

lemma name_of_four:
  "name_of (topic_id, [(w1, x1), (w2, x2), (w3, x3), (w4, x4)])
     = str_int topic_id @ ''_'' @ w1 @ ''_'' @ w2 @ ''_'' @ w3 @ ''_'' @ w4"
  by (simp add: name_of_def)

text \<open>With more than four vocabulary terms there is one name per topic, from four terms.\<close>

lemma topic_names_large_vocab:
  assumes ok: "lib_ok L" and fit: "fitted s"
    and C: "components s = Some C" and V: "vocabulary s = Some vocab"
    and big: "4 < length vocab"
  shows "\<exists>ts. get_topics L s 4 = Inr ts \<and> topic_names L s = Inr (map name_of ts) \<and>
           length (map name_of ts) = length (rows C) \<and>
           (\<forall>j<length (rows C). length (snd (ts ! j)) = 4)"
proof -
  have k: "(0::int) < 4" "(4::int) < int (length vocab)" using big by simp_all
  from get_topics_rows [OF ok fit C V k] obtain ts where
    g: "get_topics L s 4 = Inr ts" and l: "length ts = length (rows C)"
    and r: "\<forall>j<length (rows C). \<exists>idx.
        ts ! j = (classes_or_range s (length (rows C)) ! j,
                  map (\<lambda>i. (vocab ! i, rows C ! j ! i)) idx) \<and>
        length idx = nat 4 \<and> distinct idx \<and> set idx \<subseteq> {..<length vocab} \<and>
        sorted_wrt (\<ge>) (map (\<lambda>i. rows C ! j ! i) idx) \<and>
        (\<forall>i\<in>set idx. \<forall>i'<length vocab. i' \<notin> set idx \<longrightarrow> rows C ! j ! i' \<le> rows C ! j ! i)"
    by blast
  have "length (snd (ts ! j)) = 4" if "j < length (rows C)" for j
  proof -
    from r [rule_format, OF that] obtain idx where
      "ts ! j = (classes_or_range s (length (rows C)) ! j,
                 map (\<lambda>i. (vocab ! i, rows C ! j ! i)) idx)" and "length idx = nat 4"
      by blast
    then show ?thesis by simp
  qed
  then show ?thesis using g l by (simp add: topic_names_def)
qed

text \<open>
  With at least one topic and at least one term, a \<open>top_k\<close> that reaches the size of the
  vocabulary is out of bounds for \<^verbatim>\<open>np.argpartition\<close>, whatever the library.
\<close>

lemma get_topics_kth_out_of_bounds:
  assumes "components s = Some C" and "rows C \<noteq> []" and "ncols C \<noteq> 0"
    and "int (ncols C) \<le> top_k"
  shows "get_topics L s top_k = Inl (ValueError ''kth out of bounds'')"
  using assms by (simp add: get_topics_def np_argpartition2_def Let_def)

text \<open>
  Claim C9 at a fitted model with one topic and a vocabulary of exactly four terms. The
  claim gives the single name \<open>0_car_sale_price_item\<close>; \<^verbatim>\<open>topic_names\<close> raises, because
  \<^verbatim>\<open>get_topics(top_k=4)\<close> passes \<open>kth = 4\<close> to \<^verbatim>\<open>np.argpartition\<close> on an axis of length four.
\<close>

theorem topic_names_four_terms:
  "fitted four_state \<and> topic_names ref_lib four_state = Inl (ValueError ''kth out of bounds'')"
  by (simp add: fitted_def wf_matrix_def four_state_def topic_names_def get_topics_def
      np_argpartition2_def Let_def)

subsection \<open>Representative documents\<close>

lemma select_highest_ok:
  assumes ok: "lib_ok L" and k: "k < length col"
  shows "\<exists>idx. select_highest L col (int k) = Inr (idx, map (\<lambda>i. col ! i) idx) \<and>
     length idx = k \<and> distinct idx \<and> set idx \<subseteq> {..<length col} \<and>
     sorted_wrt (\<ge>) (map (\<lambda>i. col ! i) idx) \<and>
     (\<forall>i\<in>set idx. \<forall>j<length col. j \<notin> set idx \<longrightarrow> col ! j \<le> col ! i)"
proof -
  define high where "high = take k (argpartition L (neg col) k)"
  define idx where "idx = map (\<lambda>i. high ! i) (argsort L (neg (map (\<lambda>i. col ! i) high)))"
  have kn: "k < length (neg col)" using k by (simp add: neg_def)
  note p = partition_take [OF ok kn, folded high_def]
  have hsub: "set high \<subseteq> {..<length col}" using p(3) by (simp add: neg_def)
  note r = reorder_desc [OF ok hsub, folded idx_def]
  have s: "set idx = set high" using r(2) by (metis set_mset_mset)
  have l: "length idx = k" using r(2) p(1) by (metis mset_eq_length)
  have d: "distinct idx" using r(2) p(2) by (metis mset_eq_imp_distinct_iff)
  have np: "np_argpartition L (neg col) (int k) = Inr (argpartition L (neg col) k)"
    using k by (auto simp: np_argpartition_def neg_def Let_def)
  have pt: "py_take (int k) (argpartition L (neg col) k) = high"
    by (simp add: py_take_def high_def)
  have e1: "take_idx col high = Inr (map (\<lambda>i. col ! i) high)"
    by (rule take_idx_Inr [OF hsub])
  have e3: "take_idx col idx = Inr (map (\<lambda>i. col ! i) idx)"
    by (rule take_idx_Inr) (use s hsub in auto)
  have sel: "select_highest L col (int k) = Inr (idx, map (\<lambda>i. col ! i) idx)"
    unfolding select_highest_def by (simp add: np pt e1 r(1) e3 Let_def)
  have top: "\<forall>i\<in>set idx. \<forall>j<length col. j \<notin> set idx \<longrightarrow> col ! j \<le> col ! i"
  proof (intro ballI allI impI)
    fix i j assume a: "i \<in> set idx" "j < length col" "j \<notin> set idx"
    then have "i < length col" using s hsub by auto
    moreover have "neg col ! i \<le> neg col ! j" using p(4) a s by (simp add: neg_def)
    ultimately show "col ! j \<le> col ! i" using a by (simp add: neg_def)
  qed
  show ?thesis using sel l d s hsub r(3) top by blast
qed

lemma doc_rows_ok:
  "set idx \<subseteq> {..<length docs} \<Longrightarrow>
   doc_rows L docs (zip idx (map (\<lambda>i. col ! i) idx))
     = Inr (map (\<lambda>i. [display_doc (docs ! i), format_2f L (col ! i)]) idx)"
  by (induction idx) auto

lemma highest_ranking_docs_rows:
  assumes ok: "lib_ok L"
    and M: "matrix_or_transform v s raw_documents document_topic_matrix = Inr M"
    and t: "resolve_topic s topic_id = Inr tid"
    and c: "column M tid = Inr col"
    and n: "rows M \<noteq> []" and k0: "0 \<le> top_k"
    and docs: "length (rows M) \<le> length raw_documents"
  shows "\<exists>idx. highest_ranking_docs L v s topic_id raw_documents document_topic_matrix top_k
        = Inr ([''Document'', ''Score''] #
               map (\<lambda>i. [display_doc (raw_documents ! i), format_2f L (col ! i)]) idx) \<and>
     length idx = nat (min top_k (int (length (rows M)) - 1)) \<and>
     distinct idx \<and> set idx \<subseteq> {..<length (rows M)} \<and>
     sorted_wrt (\<ge>) (map (\<lambda>i. col ! i) idx) \<and>
     (\<forall>i\<in>set idx. \<forall>j<length (rows M). j \<notin> set idx \<longrightarrow> col ! j \<le> col ! i)"
proof -
  define k where "k = nat (min top_k (int (length (rows M)) - 1))"
  have lc: "length col = length (rows M)"
    using c by (auto simp: column_def split: option.splits)
  have kk: "min top_k (int (length (rows M)) - 1) = int k"
    using k0 n by (cases "rows M") (auto simp: k_def)
  have "k < length col" using n lc by (cases "rows M") (auto simp: k_def)
  from select_highest_ok [OF ok this] obtain idx where
    sel: "select_highest L col (int k) = Inr (idx, map (\<lambda>i. col ! i) idx)"
    and l: "length idx = k" and d: "distinct idx" and sub: "set idx \<subseteq> {..<length col}"
    and srt: "sorted_wrt (\<ge>) (map (\<lambda>i. col ! i) idx)"
    and top: "\<forall>i\<in>set idx. \<forall>j<length col. j \<notin> set idx \<longrightarrow> col ! j \<le> col ! i"
    by blast
  have "set idx \<subseteq> {..<length raw_documents}" using sub lc docs by auto
  note dr = doc_rows_ok [OF this, of L col]
  have "highest_ranking_docs L v s topic_id raw_documents document_topic_matrix top_k
        = Inr ([''Document'', ''Score''] #
               map (\<lambda>i. [display_doc (raw_documents ! i), format_2f L (col ! i)]) idx)"
    unfolding highest_ranking_docs_def by (simp add: M t c kk sel dr Let_def)
  then show ?thesis using l d sub srt top unfolding lc k_def by blast
qed

text \<open>
  Claim C2. Given a document-topic matrix with at least one row (passed in, or computed
  by \<^verbatim>\<open>transform\<close>), a resolved topic column \<open>col\<close>, a \<open>top_k\<close> that is not negative and a
  corpus with a document for every row, \<^verbatim>\<open>_highest_ranking_docs\<close> returns the header and one
  row for each of \<open>k = min(top_k, n_documents - 1)\<close> distinct documents \<open>idx\<close>: no document
  left out scores higher than a document shown, and the scores of the rows do not
  increase.
\<close>

theorem highest_ranking_docs_top_k:
  assumes ok: "lib_ok L"
    and M: "matrix_or_transform v s raw_documents document_topic_matrix = Inr M"
    and t: "resolve_topic s topic_id = Inr tid"
    and c: "column M tid = Inr col"
    and n: "rows M \<noteq> []" and k0: "0 \<le> top_k"
    and docs: "length (rows M) \<le> length raw_documents"
  shows "\<exists>idx. highest_ranking_docs L v s topic_id raw_documents document_topic_matrix top_k
        = Inr ([''Document'', ''Score''] #
               map (\<lambda>i. [display_doc (raw_documents ! i), format_2f L (col ! i)]) idx) \<and>
     length idx = nat (min top_k (int (length (rows M)) - 1)) \<and>
     distinct idx \<and> set idx \<subseteq> {..<length (rows M)} \<and>
     non_increasing (map (\<lambda>i. col ! i) idx) \<and>
     (\<forall>i\<in>set idx. \<forall>j<length (rows M). j \<notin> set idx \<longrightarrow> col ! j \<le> col ! i)"
  using highest_ranking_docs_rows [OF ok M t c n k0 docs]
  unfolding non_increasing_def .

text \<open>The theorem at three documents and \<open>top_k = 5\<close>: two rows.\<close>

theorem highest_ranking_docs_top_k_witness:
  "lib_ok ref_lib \<and>
   (\<exists>idx. highest_ranking_docs ref_lib transductive_variant sale_state 0 three_docs
             (Some three_docs_matrix) 5
           = Inr ([''Document'', ''Score''] #
                  map (\<lambda>i. [display_doc (three_docs ! i), format_2f ref_lib ([1, 7, 4] ! i)]) idx) \<and>
      length idx = 2 \<and> non_increasing (map (\<lambda>i. [1, 7, 4] ! i) idx))"
proof -
  have M: "matrix_or_transform transductive_variant sale_state three_docs (Some three_docs_matrix)
             = Inr three_docs_matrix"
    by (simp add: matrix_or_transform_def)
  have t: "resolve_topic sale_state 0 = Inr 0"
    by (simp add: resolve_topic_def sale_state_def)
  have c: "column three_docs_matrix 0 = Inr [1, 7, 4]"
    by (simp add: column_def py_index_def three_docs_matrix_def)
  have n: "rows three_docs_matrix \<noteq> []" by (simp add: three_docs_matrix_def)
  have d: "length (rows three_docs_matrix) \<le> length three_docs"
    by (simp add: three_docs_matrix_def three_docs_def)
  have k: "(0::int) \<le> 5" by simp
  from highest_ranking_docs_top_k [OF ref_lib_ok M t c n k d]
  obtain idx where
    "highest_ranking_docs ref_lib transductive_variant sale_state 0 three_docs
       (Some three_docs_matrix) 5
     = Inr ([''Document'', ''Score''] #
            map (\<lambda>i. [display_doc (three_docs ! i), format_2f ref_lib ([1, 7, 4] ! i)]) idx)"
    "length idx = nat (min 5 (int (length (rows three_docs_matrix)) - 1))"
    "non_increasing (map (\<lambda>i. [1, 7, 4] ! i) idx)"
    by blast
  moreover have "nat (min 5 (int (length (rows three_docs_matrix)) - 1)) = 2"
    by (simp add: three_docs_matrix_def)
  ultimately show ?thesis using ref_lib_ok by auto
qed

text \<open>
  Claim C10. When the document-topic matrix has exactly one row and \<open>top_k \<ge> 1\<close>, the
  effective selection size \<open>min(top_k, n_documents - 1)\<close> is 0 and the grid is the header
  row alone.
\<close>

theorem single_document_no_rows:
  assumes ok: "lib_ok L"
    and M: "matrix_or_transform v s raw_documents document_topic_matrix = Inr M"
    and one: "length (rows M) = 1"
    and t: "resolve_topic s topic_id = Inr tid"
    and c: "column M tid = Inr col"
    and k1: "1 \<le> top_k"
  shows "min top_k (int (length (rows M)) - 1) = 0 \<and>
         highest_ranking_docs L v s topic_id raw_documents document_topic_matrix top_k
           = Inr [[''Document'', ''Score'']]"
proof -
  have lc: "length col = 1"
    using c one by (auto simp: column_def split: option.splits)
  then have "0 < length col" by simp
  from select_highest_ok [OF ok this] have
    sel: "select_highest L col 0 = Inr ([], [])" by auto
  have kk: "min top_k (int (length (rows M)) - 1) = 0" using one k1 by simp
  then show ?thesis
    unfolding highest_ranking_docs_def by (simp add: M t c sel Let_def)
qed

text \<open>The theorem at a corpus of one document and \<open>top_k = 5\<close>.\<close>

theorem single_document_no_rows_witness:
  "lib_ok ref_lib \<and>
   highest_ranking_docs ref_lib transductive_variant sale_state 0 [''only  one''] (Some one_doc_matrix) 5
     = Inr [[''Document'', ''Score'']]"
proof -
  have M: "matrix_or_transform transductive_variant sale_state [''only  one''] (Some one_doc_matrix)
             = Inr one_doc_matrix"
    by (simp add: matrix_or_transform_def)
  have one: "length (rows one_doc_matrix) = 1" by (simp add: one_doc_matrix_def)
  have t: "resolve_topic sale_state 0 = Inr 0"
    by (simp add: resolve_topic_def sale_state_def)
  have c: "column one_doc_matrix 0 = Inr [1]"
    by (simp add: column_def py_index_def one_doc_matrix_def)
  have k: "(1::int) \<le> 5" by simp
  from single_document_no_rows [OF ref_lib_ok M one t c k]
  show ?thesis using ref_lib_ok by simp
qed

subsection \<open>Whitespace and truncation\<close>

lemma length_join_le: "length (join sep (w # ws)) \<le> length w + length sep + length (join sep ws)"
  by (cases ws) auto

lemma length_split_from:
  "length (join '' '' (split_from w cs)) \<le> length w + length cs"
proof (induction cs arbitrary: w)
  case Nil
  then show ?case by simp
next
  case (Cons c cs)
  show ?case
  proof (cases "is_space c")
    case True
    show ?thesis
    proof (cases "w = []")
      case True
      with \<open>is_space c\<close> Cons.IH [of "[]"] show ?thesis by simp
    next
      case False
      have "length (join '' '' (w # split_from [] cs))
              \<le> length w + 1 + length (join '' '' (split_from [] cs))"
        using length_join_le [of "'' ''" w "split_from [] cs"] by simp
      with False \<open>is_space c\<close> Cons.IH [of "[]"] show ?thesis by simp
    qed
  next
    case False
    with Cons.IH [of "w @ [c]"] show ?thesis by simp
  qed
qed

lemma length_strip: "length (strip t) \<le> length t"
proof -
  have "length (dropWhile is_space (rev (dropWhile is_space t))) \<le> length (rev (dropWhile is_space t))"
    by (rule length_dropWhile_le)
  also have "\<dots> \<le> length t" by (simp add: length_dropWhile_le)
  finally show ?thesis by (simp add: strip_def)
qed

lemma length_remove_whitespace: "length (remove_whitespace t) \<le> length t"
  using length_split_from [of "[]" "strip t"] length_strip [of t]
  by (simp add: remove_whitespace_def split_def)

lemma split_from_words:
  "\<forall>c\<in>set w. \<not> is_space c \<Longrightarrow>
   \<forall>x\<in>set (split_from w cs). x \<noteq> [] \<and> (\<forall>c\<in>set x. \<not> is_space c)"
proof (induction cs arbitrary: w)
  case Nil
  then show ?case by simp
next
  case (Cons c cs)
  show ?case
  proof (cases "is_space c")
    case True
    have e: "\<forall>x\<in>set (split_from [] cs). x \<noteq> [] \<and> (\<forall>c\<in>set x. \<not> is_space c)"
      by (rule Cons.IH) simp
    show ?thesis
    proof (cases "w = []")
      case True
      with \<open>is_space c\<close> e show ?thesis by simp
    next
      case False
      with \<open>is_space c\<close> e Cons.prems show ?thesis by simp
    qed
  next
    case False
    have "\<forall>x\<in>set (split_from (w @ [c]) cs). x \<noteq> [] \<and> (\<forall>c\<in>set x. \<not> is_space c)"
      by (rule Cons.IH) (use False Cons.prems in auto)
    with False show ?thesis by simp
  qed
qed

lemma concat_split_from:
  "concat (split_from w cs) = w @ filter (\<lambda>c. \<not> is_space c) cs"
  by (induction cs arbitrary: w) auto

lemma filter_dropWhile: "filter (\<lambda>c. \<not> P c) (dropWhile P xs) = filter (\<lambda>c. \<not> P c) xs"
  by (induction xs) auto

lemma filter_strip: "filter (\<lambda>c. \<not> is_space c) (strip t) = filter (\<lambda>c. \<not> is_space c) t"
proof -
  have "filter (\<lambda>c. \<not> is_space c) (strip t)
          = rev (filter (\<lambda>c. \<not> is_space c) (dropWhile is_space (rev (dropWhile is_space t))))"
    by (simp add: strip_def rev_filter)
  also have "\<dots> = rev (filter (\<lambda>c. \<not> is_space c) (rev (dropWhile is_space t)))"
    by (simp only: filter_dropWhile)
  also have "\<dots> = filter (\<lambda>c. \<not> is_space c) (dropWhile is_space t)"
    by (simp add: rev_filter)
  also have "\<dots> = filter (\<lambda>c. \<not> is_space c) t" by (rule filter_dropWhile)
  finally show ?thesis .
qed

lemma remove_whitespace_words:
  "\<exists>ws. remove_whitespace doc = join '' '' ws \<and>
        (\<forall>w\<in>set ws. w \<noteq> [] \<and> (\<forall>c\<in>set w. \<not> is_space c)) \<and>
        concat ws = filter (\<lambda>c. \<not> is_space c) doc"
proof -
  let ?ws = "split (strip doc)"
  have "\<forall>w\<in>set ?ws. w \<noteq> [] \<and> (\<forall>c\<in>set w. \<not> is_space c)"
    unfolding split_def by (rule split_from_words) simp
  moreover have "concat ?ws = filter (\<lambda>c. \<not> is_space c) doc"
    by (simp add: split_def concat_split_from filter_strip)
  ultimately show ?thesis unfolding remove_whitespace_def by blast
qed

lemma split_from_skip_spaces:
  "\<forall>c\<in>set g. is_space c \<Longrightarrow> split_from [] (g @ rest) = split_from [] rest"
  by (induction g) auto

lemma split_from_read_word:
  "\<forall>c\<in>set u. \<not> is_space c \<Longrightarrow> split_from w (u @ rest) = split_from (w @ u) rest"
  by (induction u arbitrary: w) auto

lemma split_from_only_spaces:
  assumes "\<forall>c\<in>set g. is_space c"
  shows "split_from w g = (if w = [] then [] else [w])"
proof (cases g)
  case Nil
  then show ?thesis by simp
next
  case (Cons c g')
  have "split_from [] g' = []"
    using split_from_skip_spaces [of g' "[]"] assms Cons by simp
  then show ?thesis using assms Cons by simp
qed

lemma split_from_trailing_spaces:
  "\<forall>c\<in>set g. is_space c \<Longrightarrow> split_from w (t @ g) = split_from w t"
proof (induction t arbitrary: w)
  case Nil
  then show ?case by (simp add: split_from_only_spaces)
next
  case (Cons c t)
  then show ?case by simp
qed

lemma split_strip: "split (strip t) = split t"
proof -
  define t1 where "t1 = dropWhile is_space t"
  have "\<forall>c\<in>set (takeWhile is_space t). is_space c"
    by (auto dest: set_takeWhileD)
  then have "split_from [] (takeWhile is_space t @ t1) = split_from [] t1"
    by (rule split_from_skip_spaces)
  then have a: "split_from [] t = split_from [] t1" by (simp add: t1_def)
  define a where "a = dropWhile is_space (rev t1)"
  define b where "b = takeWhile is_space (rev t1)"
  have "rev t1 = b @ a" by (simp add: a_def b_def)
  then have "rev (rev t1) = rev (b @ a)" by (rule arg_cong)
  then have t1: "t1 = rev a @ rev b" by simp
  have "\<forall>c\<in>set (rev b). is_space c"
    by (auto simp: b_def dest: set_takeWhileD)
  then have "split_from [] (rev a @ rev b) = split_from [] (rev a)"
    by (rule split_from_trailing_spaces)
  then have "split_from [] t1 = split_from [] (rev a)" by (simp only: t1 [symmetric])
  then show ?thesis by (simp add: split_def strip_def a t1_def a_def)
qed

lemma weave_prefix: "weave ((x @ g) # gaps) ws = x @ weave (g # gaps) ws"
  by (cases ws) simp_all

lemma split_from_weave:
  "\<exists>gaps. length gaps = length (split_from [] cs) + 1 \<and> cs = weave gaps (split_from [] cs) \<and>
      (\<forall>g\<in>set gaps. \<forall>c\<in>set g. is_space c) \<and> (\<forall>g\<in>set (butlast (tl gaps)). g \<noteq> [])"
proof (induction cs rule: length_induct)
  case (1 cs)
  define g where "g = takeWhile is_space cs"
  define r where "r = dropWhile is_space cs"
  have cs: "cs = g @ r" by (simp add: g_def r_def)
  have gs: "\<forall>c\<in>set g. is_space c" by (auto simp: g_def dest: set_takeWhileD)
  have s1: "split_from [] cs = split_from [] r"
    unfolding cs by (rule split_from_skip_spaces [OF gs])
  show ?case
  proof (cases "r = []")
    case True
    then have "split_from [] cs = []" by (simp add: s1)
    moreover have "cs = g" using True cs by simp
    ultimately show ?thesis using gs by (intro exI [of _ "[g]"]) simp
  next
    case False
    define u where "u = takeWhile (\<lambda>c. \<not> is_space c) r"
    define r' where "r' = dropWhile (\<lambda>c. \<not> is_space c) r"
    have r: "r = u @ r'" by (simp add: u_def r'_def)
    have us: "\<forall>c\<in>set u. \<not> is_space c" by (auto simp: u_def dest: set_takeWhileD)
    have "\<not> is_space (hd r)" using False hd_dropWhile [of is_space cs] by (simp add: r_def)
    then have une: "u \<noteq> []" using False by (cases r) (auto simp: u_def)
    have s2: "split_from [] cs = split_from u r'"
      using split_from_read_word [OF us, of "[]" r'] by (simp add: s1 r [symmetric])
    show ?thesis
    proof (cases r')
      case Nil
      then have "split_from [] cs = [u]" using une by (simp add: s2)
      moreover have "cs = g @ u" using Nil cs r by simp
      ultimately show ?thesis using gs by (intro exI [of _ "[g, []]"]) simp
    next
      case (Cons c r'')
      have sc: "is_space c"
        using Cons by (simp add: r'_def dropWhile_eq_Cons_conv)
      have s3: "split_from [] cs = u # split_from [] r''"
        using une sc by (simp add: s2 Cons)
      have "length r'' < length cs" by (simp add: cs r Cons)
      with 1 obtain gaps' where
        l: "length gaps' = length (split_from [] r'') + 1"
        and w: "r'' = weave gaps' (split_from [] r'')"
        and sp: "\<forall>g\<in>set gaps'. \<forall>c\<in>set g. is_space c"
        and ne: "\<forall>g\<in>set (butlast (tl gaps')). g \<noteq> []"
        by blast
      from l obtain g0 rest where gaps': "gaps' = g0 # rest" by (cases gaps') auto
      let ?gaps = "g # (c # g0) # rest"
      have "weave ((c # g0) # rest) (split_from [] r'') = c # r''"
        using weave_prefix [of "[c]" g0 rest "split_from [] r''"] w gaps' by simp
      then have "weave ?gaps (split_from [] cs) = g @ u @ c # r''"
        by (simp add: s3)
      moreover have "cs = g @ u @ c # r''" using cs r Cons by simp
      ultimately have 2: "cs = weave ?gaps (split_from [] cs)" by simp
      have 1: "length ?gaps = length (split_from [] cs) + 1"
        using l gaps' by (simp add: s3)
      have 3: "\<forall>g\<in>set ?gaps. \<forall>c\<in>set g. is_space c"
        using gs sc sp gaps' by auto
      have 4: "\<forall>g\<in>set (butlast (tl ?gaps)). g \<noteq> []"
        using ne gaps' by (cases rest) auto
      from 1 2 3 4 show ?thesis by blast
    qed
  qed
qed

lemma remove_whitespace_weave:
  "\<exists>ws gaps. remove_whitespace doc = join '' '' ws \<and> doc = weave gaps ws \<and>
      length gaps = length ws + 1 \<and>
      (\<forall>g\<in>set gaps. \<forall>c\<in>set g. is_space c) \<and>
      (\<forall>g\<in>set (butlast (tl gaps)). g \<noteq> []) \<and>
      (\<forall>w\<in>set ws. w \<noteq> [] \<and> (\<forall>c\<in>set w. \<not> is_space c)) \<and>
      concat ws = filter (\<lambda>c. \<not> is_space c) doc"
proof -
  let ?ws = "split_from [] doc"
  have r: "remove_whitespace doc = join '' '' ?ws"
    using split_strip [of doc] by (simp add: remove_whitespace_def split_def)
  have w: "\<forall>w\<in>set ?ws. w \<noteq> [] \<and> (\<forall>c\<in>set w. \<not> is_space c)"
    by (rule split_from_words) simp
  have c: "concat ?ws = filter (\<lambda>c. \<not> is_space c) doc"
    by (simp add: concat_split_from)
  from split_from_weave [of doc] obtain gaps where
    "length gaps = length ?ws + 1" "doc = weave gaps ?ws"
    "\<forall>g\<in>set gaps. \<forall>c\<in>set g. is_space c" "\<forall>g\<in>set (butlast (tl gaps)). g \<noteq> []"
    by blast
  with r w c show ?thesis by blast
qed

lemma doc_rows_display:
  "doc_rows L raw_documents xs = Inr rs \<Longrightarrow>
   map hd rs = map (\<lambda>x. display_doc (raw_documents ! fst x)) xs"
proof (induction xs arbitrary: rs)
  case Nil
  then show ?case by simp
next
  case (Cons x xs)
  obtain i sc where x: "x = (i, sc)" by (cases x)
  from Cons.prems obtain rs' where "doc_rows L raw_documents xs = Inr rs'"
    "rs = [display_doc (raw_documents ! i), format_2f L sc] # rs'"
    by (auto simp: x split: if_splits sum.splits)
  then show ?case using Cons.IH by (simp add: x)
qed

lemma split_from_no_space:
  "\<forall>c\<in>set cs. \<not> is_space c \<Longrightarrow> w @ cs \<noteq> [] \<Longrightarrow> split_from w cs = [w @ cs]"
  by (induction cs arbitrary: w) auto

lemma remove_whitespace_no_space:
  assumes "\<forall>c\<in>set t. \<not> is_space c" and "t \<noteq> []"
  shows "remove_whitespace t = t"
proof -
  have a: "dropWhile is_space t = t" using assms by (cases t) auto
  have "dropWhile is_space (rev t) = rev t" using assms by (cases "rev t") auto
  then have "strip t = t" by (simp add: strip_def a)
  then show ?thesis using assms by (simp add: remove_whitespace_def split_def split_from_no_space)
qed

lemma not_space_a: "\<not> is_space (CHR ''a'')"
  by (simp add: is_space_def)

lemma remove_whitespace_example: "remove_whitespace '' second  offer '' = ''second offer''"
  by (simp add: remove_whitespace_def strip_def split_def is_space_def)

text \<open>
  Claim C7, as amended. The first cell of every row of \<^verbatim>\<open>_highest_ranking_docs\<close> is
  \<open>display_doc\<close> of the source document. The document is first normalised. The document
  is \<open>g\<^sub>0 w\<^sub>1 g\<^sub>1 \<dots> w\<^sub>n g\<^sub>n\<close> for words \<open>w\<^sub>i\<close>, each not empty and free of whitespace, and
  gaps \<open>g\<^sub>i\<close> of whitespace only, not empty between two words; the normalised text is
  \<open>w\<^sub>1 w\<^sub>2 \<dots> w\<^sub>n\<close> with one space between neighbours: every run of whitespace inside
  has become a single space and the runs at the ends are gone. A normalised text longer
  than 300 characters is cut to its first 300 characters followed by \<open>...\<close>, 303 characters
  in all; a normalised text of 300 characters or fewer is shown in full. A source document
  of 300 characters or fewer is therefore never cut.
\<close>

theorem display_doc_truncation:
  "(300 < length (remove_whitespace doc) \<longrightarrow>
      display_doc doc = take 300 (remove_whitespace doc) @ ''...'' \<and>
      length (display_doc doc) = 303) \<and>
   (length (remove_whitespace doc) \<le> 300 \<longrightarrow> display_doc doc = remove_whitespace doc) \<and>
   (length doc \<le> 300 \<longrightarrow> display_doc doc = remove_whitespace doc) \<and>
   (\<exists>ws gaps. remove_whitespace doc = join '' '' ws \<and> doc = weave gaps ws \<and>
        length gaps = length ws + 1 \<and>
        (\<forall>g\<in>set gaps. \<forall>c\<in>set g. is_space c) \<and>
        (\<forall>g\<in>set (butlast (tl gaps)). g \<noteq> []) \<and>
        (\<forall>w\<in>set ws. w \<noteq> [] \<and> (\<forall>c\<in>set w. \<not> is_space c)) \<and>
        concat ws = filter (\<lambda>c. \<not> is_space c) doc) \<and>
   (\<forall>L raw_documents xs rs. doc_rows L raw_documents xs = Inr rs \<longrightarrow>
        map hd rs = map (\<lambda>x. display_doc (raw_documents ! fst x)) xs)"
proof (intro conjI impI allI)
  assume "300 < length (remove_whitespace doc)"
  then show "display_doc doc = take 300 (remove_whitespace doc) @ ''...''"
    and "length (display_doc doc) = 303"
    by (simp_all add: display_doc_def Let_def)
next
  assume "length (remove_whitespace doc) \<le> 300"
  then show "display_doc doc = remove_whitespace doc"
    by (simp add: display_doc_def Let_def)
next
  assume "length doc \<le> 300"
  then have "length (remove_whitespace doc) \<le> 300"
    using length_remove_whitespace [of doc] by simp
  then show "display_doc doc = remove_whitespace doc"
    by (simp add: display_doc_def Let_def)
next
  show "\<exists>ws gaps. remove_whitespace doc = join '' '' ws \<and> doc = weave gaps ws \<and>
        length gaps = length ws + 1 \<and>
        (\<forall>g\<in>set gaps. \<forall>c\<in>set g. is_space c) \<and>
        (\<forall>g\<in>set (butlast (tl gaps)). g \<noteq> []) \<and>
        (\<forall>w\<in>set ws. w \<noteq> [] \<and> (\<forall>c\<in>set w. \<not> is_space c)) \<and>
        concat ws = filter (\<lambda>c. \<not> is_space c) doc"
    by (rule remove_whitespace_weave)
next
  fix L raw_documents xs rs
  assume "doc_rows L raw_documents xs = Inr rs"
  then show "map hd rs = map (\<lambda>x. display_doc (raw_documents ! fst x)) xs"
    by (rule doc_rows_display)
qed

text \<open>
  The theorem at a document of 301 letters and at a short document; a tab and a newline
  between two letters become one space.
\<close>

theorem display_doc_truncation_witness:
  "300 < length (remove_whitespace (replicate 301 (CHR ''a''))) \<and>
   length (display_doc (replicate 301 (CHR ''a''))) = 303 \<and>
   length '' second  offer '' \<le> 300 \<and>
   display_doc '' second  offer '' = ''second offer'' \<and>
   display_doc (''a'' @ [CHR 0x09, CHR 0x0A] @ ''b'') = ''a b''"
proof -
  have "remove_whitespace (replicate 301 (CHR ''a'')) = replicate 301 (CHR ''a'')"
    by (rule remove_whitespace_no_space) (simp_all add: not_space_a)
  then have a: "300 < length (remove_whitespace (replicate 301 (CHR ''a'')))" by simp
  have b: "length '' second  offer '' \<le> 300" by simp
  from display_doc_truncation [of "replicate 301 (CHR ''a'')"] a
  have "length (display_doc (replicate 301 (CHR ''a''))) = 303" by blast
  moreover from display_doc_truncation [of "'' second  offer ''"] b
  have "display_doc '' second  offer '' = ''second offer''"
    by (simp only: remove_whitespace_example)
  moreover have "display_doc (''a'' @ [CHR 0x09, CHR 0x0A] @ ''b'') = ''a b''"
    by (simp add: display_doc_def remove_whitespace_def strip_def split_def is_space_def)
  ultimately show ?thesis using a b by blast
qed

text \<open>
  Claim C7 as stated measures the source document. A source document of 301 characters,
  one letter followed by 300 spaces, is shown as that one letter: not 303 characters.
\<close>

theorem display_doc_long_source_counterexample:
  "300 < length (''a'' @ replicate 300 (CHR '' '')) \<and>
   display_doc (''a'' @ replicate 300 (CHR '' '')) = ''a''"
proof -
  have sp: "is_space (CHR '' '')" by (simp add: is_space_def)
  have d1: "dropWhile is_space (''a'' @ replicate 300 (CHR '' '')) = ''a'' @ replicate 300 (CHR '' '')"
    by (simp add: not_space_a)
  have "dropWhile is_space (replicate 300 (CHR '' '') @ ''a'') = dropWhile is_space ''a''"
    by (rule dropWhile_append2) (simp add: sp)
  then have d2: "dropWhile is_space (rev (''a'' @ replicate 300 (CHR '' ''))) = ''a''"
    by (simp add: not_space_a)
  have "strip (''a'' @ replicate 300 (CHR '' '')) = ''a''"
    unfolding strip_def d1 d2 by simp
  then have "remove_whitespace (''a'' @ replicate 300 (CHR '' '')) = ''a''"
    by (simp add: remove_whitespace_def split_def not_space_a)
  then show ?thesis by (simp add: display_doc_def)
qed

subsection \<open>The inputs of the topic distribution\<close>

lemma get_topics_labelled_state_4:
  "get_topics ref_lib labelled_state 4 =
     Inr [(- 1, [(''car'', 5), (''sale'', 4), (''price'', 3), (''item'', 2)]),
          (0, [(''offer'', 5), (''item'', 4), (''price'', 3), (''sale'', 2)]),
          (1, [(''sale'', 5), (''item'', 4), (''offer'', 3), (''car'', 2)])]"
  by (simp add: get_topics_def labelled_state_def np_argpartition2_def ref_lib_def ref_argsort_def
      neg_def sort_key_def py_take_def get_vocab_def top_of_row_def take_idx_def
      classes_or_range_def Let_def)

lemma digits_small: "n < 10 \<Longrightarrow> digits n = [digit_char n]"
  by (simp add: digits.simps)

lemma ref_format_examples:
  "ref_format_2f 5 = ''5.00''" "ref_format_2f 3 = ''3.00''"
  by (simp_all add: ref_format_2f_def round_half_even_def digits_small digit_char_def
      two_digits_def Let_def)

lemma names_labelled_state:
  "name_of (- 1, [(''car'', 5), (''sale'', 4), (''price'', 3), (''item'', 2)]) = ''-1_car_sale_price_item''"
  "name_of (0, [(''offer'', 5), (''item'', 4), (''price'', 3), (''sale'', 2)]) = ''0_offer_item_price_sale''"
  "name_of (1, [(''sale'', 5), (''item'', 4), (''offer'', 3), (''car'', 2)]) = ''1_sale_item_offer_car''"
  by (simp_all add: name_of_def str_int_def digits_small digit_char_def)

lemma rank_topics_example:
  "rank_topics ref_lib [''-1_car_sale_price_item'', ''0_offer_item_price_sale'', ''1_sale_item_offer_car'']
     (Arr1 [2, 5, 3]) 2
   = Inr [[''Topic name'', ''Score''], [''0_offer_item_price_sale'', ''5.00''],
          [''1_sale_item_offer_car'', ''3.00'']]"
  by (simp add: rank_topics_def py_take_def ref_lib_def ref_argsort_def neg_def sort_key_def
      ref_format_examples Let_def)

text \<open>
  Claim C5, as amended. \<^verbatim>\<open>_topic_distribution\<close> called with neither a text nor a distribution
  fails with the input error. Called with both, it does not fail on that account: the
  text is not looked at, and the result is that of the call with the distribution alone.
\<close>

theorem topic_distribution_inputs:
  "topic_distribution L v s None None top_k
     = Inl (ValueError ''You should either pass a text or a distribution.'') \<and>
   topic_distribution L v s (Some text) (Some topic_dist) top_k
     = topic_distribution L v s None (Some topic_dist) top_k"
  by (simp add: topic_distribution_def dist_or_transform_def)

text \<open>
  Claim C5 as stated has a call with both a text and a distribution fail; this one, on a
  transductive model, returns the table of the two highest topics.
\<close>

theorem topic_distribution_both_counterexample:
  "topic_distribution ref_lib transductive_variant labelled_state
     (Some ''an offer'') (Some (Arr1 [2, 5, 3])) 2
   = Inr [[''Topic name'', ''Score''], [''0_offer_item_price_sale'', ''5.00''],
          [''1_sale_item_offer_car'', ''3.00'']]"
  by (simp add: topic_distribution_def dist_or_transform_def np_squeeze_def
      get_topics_labelled_state_4 names_labelled_state rank_topics_example Let_def)

subsection \<open>Transductive models\<close>

text \<open>
  Claim C6. On a model without \<^verbatim>\<open>transform\<close>, \<^verbatim>\<open>_highest_ranking_docs\<close> without a matrix and
  \<^verbatim>\<open>_topic_distribution\<close> with a text and no distribution both fail with a \<^verbatim>\<open>ValueError\<close>
  whose message names transductive methods and asks for the document-topic matrix,
  respectively the topic distribution.
\<close>

theorem transductive_errors:
  assumes "transform v = None"
  shows "highest_ranking_docs L v s topic_id raw_documents None top_k
           = Inl (ValueError (''Transductive methods cannot infer topical content in documents.''
                    @ [CHR 0x0A] @ ''Please pass a document_topic_matrix.'')) \<and>
         topic_distribution L v s (Some text) None top_k'
           = Inl (ValueError (''Transductive methods cannot infer topical content in documents.''
                    @ [CHR 0x0A] @ ''Please pass a topic distribution.''))"
  using assms
  by (simp add: highest_ranking_docs_def matrix_or_transform_def transductive_matrix_msg_def
      topic_distribution_def dist_or_transform_def transductive_dist_msg_def)

text \<open>The theorem at \<open>transductive_variant\<close>.\<close>

theorem transductive_errors_witness:
  "transform transductive_variant = None \<and>
   highest_ranking_docs ref_lib transductive_variant sale_state 0 three_docs None 5
     = Inl (ValueError (''Transductive methods cannot infer topical content in documents.''
              @ [CHR 0x0A] @ ''Please pass a document_topic_matrix.'')) \<and>
   topic_distribution ref_lib transductive_variant sale_state (Some ''an offer'') None 10
     = Inl (ValueError (''Transductive methods cannot infer topical content in documents.''
              @ [CHR 0x0A] @ ''Please pass a topic distribution.''))"
proof -
  have t: "transform transductive_variant = None" by (simp add: transductive_variant_def)
  from transductive_errors [OF t] show ?thesis using t by simp
qed

subsection \<open>The topic data snapshot\<close>

lemma topic_names_labelled_state:
  "topic_names ref_lib labelled_state
     = Inr [''-1_car_sale_price_item'', ''0_offer_item_price_sale'', ''1_sale_item_offer_car'']"
  by (simp add: topic_names_def get_topics_labelled_state_4 names_labelled_state)

lemma prepare_topic_data_Inr:
  assumes "prepare_topic_data L v s corpus embeddings = Inr (td, s')"
  shows "\<exists>emb M dtm vocab C names.
     embeddings_or_encode v corpus embeddings = Inr emb \<and>
     transform_or_fit v s corpus emb = Inr (M, s') \<and>
     td = [(''corpus'', StrList corpus),
           (''document_term_matrix'', Counts dtm),
           (''vocab'', StrList vocab),
           (''document_topic_matrix'', Array M),
           (''document_representation'', Embeddings emb),
           (''topic_term_matrix'', Array C),
           (''transform'', getattr_transform v),
           (''topic_names'', StrList names)]"
  using assms unfolding prepare_topic_data_def
  by (auto split: sum.splits option.splits prod.splits)

lemma prepare_topic_data_returns:
  assumes ok: "lib_ok L"
    and e: "embeddings_or_encode v corpus embeddings = Inr emb"
    and t: "transform_or_fit v s corpus emb = Inr (M, s')"
    and d: "vectorizer_transform v s' corpus = Inr dtm"
    and fit: "fitted s'" and V: "vocabulary s' = Some vocab" and big: "4 < length vocab"
  shows "\<exists>td. prepare_topic_data L v s corpus embeddings = Inr (td, s')"
proof -
  from fit obtain C where C: "components s' = Some C"
    by (auto simp: fitted_def split: option.splits)
  from topic_names_large_vocab [OF ok fit C V big] obtain ts where
    "topic_names L s' = Inr (map name_of ts)" by blast
  then show ?thesis
    unfolding prepare_topic_data_def by (simp add: e t d C V get_vocab_def)
qed

lemma components_labelled_state: "components labelled_state \<noteq> None"
  by (simp add: labelled_state_def)

lemma prepare_transductive_example:
  "prepare_topic_data ref_lib transductive_variant unfitted_state three_docs None
     = Inr ([(''corpus'', StrList three_docs),
             (''document_term_matrix'', Counts [[0, 0, 0, 0, 0], [0, 0, 0, 0, 0], [0, 0, 0, 0, 0]]),
             (''vocab'', StrList [''car'', ''sale'', ''price'', ''item'', ''offer'']),
             (''document_topic_matrix'', Array \<lparr>ncols = 3, rows = [[1, 0, 0], [1, 0, 0], [1, 0, 0]]\<rparr>),
             (''document_representation'', Embeddings [[0], [0], [0]]),
             (''topic_term_matrix'',
                Array \<lparr>ncols = 5, rows = [[5, 4, 3, 2, 1], [1, 2, 3, 4, 5], [2, 5, 1, 4, 3]]\<rparr>),
             (''transform'', PyNone),
             (''topic_names'', StrList [''-1_car_sale_price_item'', ''0_offer_item_price_sale'',
                                        ''1_sale_item_offer_car''])], labelled_state)"
proof -
  have a: "embeddings_or_encode transductive_variant three_docs None = Inr [[0], [0], [0]]"
    by (simp add: embeddings_or_encode_def encode_documents_def transductive_variant_def three_docs_def)
  have b: "transform_or_fit transductive_variant unfitted_state three_docs [[0], [0], [0]]
             = Inr (\<lparr>ncols = 3, rows = [[1, 0, 0], [1, 0, 0], [1, 0, 0]]\<rparr>, labelled_state)"
    by (simp add: transform_or_fit_def transductive_variant_def three_docs_def)
  have c: "vectorizer_transform transductive_variant labelled_state three_docs
             = Inr [[0, 0, 0, 0, 0], [0, 0, 0, 0, 0], [0, 0, 0, 0, 0]]"
    by (simp add: transductive_variant_def three_docs_def)
  have d: "get_vocab labelled_state = Inr [''car'', ''sale'', ''price'', ''item'', ''offer'']"
    by (simp add: get_vocab_def labelled_state_def)
  have e: "components labelled_state
             = Some \<lparr>ncols = 5, rows = [[5, 4, 3, 2, 1], [1, 2, 3, 4, 5], [2, 5, 1, 4, 3]]\<rparr>"
    by (simp add: labelled_state_def)
  have f: "getattr_transform transductive_variant = PyNone"
    by (simp add: getattr_transform_def transductive_variant_def)
  show ?thesis
    unfolding prepare_topic_data_def
    by (simp add: a b c d e f topic_names_labelled_state)
qed

lemma transform_inductive_fitted:
  "transform_or_fit inductive_variant labelled_state three_docs [[0], [0], [0]]
     = Inr (\<lparr>ncols = 3, rows = [[0, 1, 0], [0, 1, 0], [0, 1, 0]]\<rparr>, labelled_state)"
  by (simp add: transform_or_fit_def inductive_variant_def three_docs_def components_labelled_state)

lemma prepare_inductive_example:
  "prepare_topic_data ref_lib inductive_variant labelled_state three_docs (Some [[0], [0], [0]])
     = Inr ([(''corpus'', StrList three_docs),
             (''document_term_matrix'', Counts [[0, 0, 0, 0, 0], [0, 0, 0, 0, 0], [0, 0, 0, 0, 0]]),
             (''vocab'', StrList [''car'', ''sale'', ''price'', ''item'', ''offer'']),
             (''document_topic_matrix'', Array \<lparr>ncols = 3, rows = [[0, 1, 0], [0, 1, 0], [0, 1, 0]]\<rparr>),
             (''document_representation'', Embeddings [[0], [0], [0]]),
             (''topic_term_matrix'',
                Array \<lparr>ncols = 5, rows = [[5, 4, 3, 2, 1], [1, 2, 3, 4, 5], [2, 5, 1, 4, 3]]\<rparr>),
             (''transform'', getattr_transform inductive_variant),
             (''topic_names'', StrList [''-1_car_sale_price_item'', ''0_offer_item_price_sale'',
                                        ''1_sale_item_offer_car''])], labelled_state)"
proof -
  have a: "embeddings_or_encode inductive_variant three_docs (Some [[0], [0], [0]]) = Inr [[0], [0], [0]]"
    by (simp add: embeddings_or_encode_def)
  have c: "vectorizer_transform inductive_variant labelled_state three_docs
             = Inr [[0, 0, 0, 0, 0], [0, 0, 0, 0, 0], [0, 0, 0, 0, 0]]"
    by (simp add: inductive_variant_def three_docs_def)
  have d: "get_vocab labelled_state = Inr [''car'', ''sale'', ''price'', ''item'', ''offer'']"
    by (simp add: get_vocab_def labelled_state_def)
  have e: "components labelled_state
             = Some \<lparr>ncols = 5, rows = [[5, 4, 3, 2, 1], [1, 2, 3, 4, 5], [2, 5, 1, 4, 3]]\<rparr>"
    by (simp add: labelled_state_def)
  show ?thesis
    unfolding prepare_topic_data_def
    by (simp add: a transform_inductive_fitted c d e topic_names_labelled_state)
qed

lemma transform_inductive_values:
  "transform inductive_variant = Some (the (transform inductive_variant))"
  "the (transform inductive_variant) labelled_state three_docs (Some [[0], [0], [0]])
     = Inr \<lparr>ncols = 3, rows = [[0, 1, 0], [0, 1, 0], [0, 1, 0]]\<rparr>"
  "the (transform inductive_variant) unfitted_state three_docs (Some [[0], [0], [0]])
     = Inl NotFittedError"
  "the (transform inductive_variant) labelled_state [] (Some []) = Inl (ValueError ''empty corpus'')"
  "fit_transform inductive_variant unfitted_state three_docs (Some [[0], [0], [0]])
     = Inr (\<lparr>ncols = 3, rows = [[1, 0, 0], [1, 0, 0], [1, 0, 0]]\<rparr>, labelled_state)"
  by (simp_all add: inductive_variant_def three_docs_def unfitted_state_def components_labelled_state)

text \<open>
  Claim C3. With the embeddings \<open>emb\<close> in hand, \<^verbatim>\<open>prepare_topic_data\<close> takes its
  document-topic matrix and its learned state from \<open>transform_or_fit\<close>, and fails as that
  step fails. The step tries \<^verbatim>\<open>transform\<close> first: a matrix it returns is used and the
  learned state is left as it was. \<^verbatim>\<open>fit_transform\<close> is the result exactly when the model
  has no \<^verbatim>\<open>transform\<close> or \<^verbatim>\<open>transform\<close> raises \<^verbatim>\<open>AttributeError\<close> or \<^verbatim>\<open>NotFittedError\<close>; any
  other error of \<^verbatim>\<open>transform\<close> is passed on. It is the only fallback that fits the model:
  when \<^verbatim>\<open>transform\<close> returns, \<^verbatim>\<open>prepare_topic_data\<close> does not depend on \<^verbatim>\<open>fit_transform\<close>, and
  \<^verbatim>\<open>_highest_ranking_docs\<close> and \<^verbatim>\<open>_topic_distribution\<close> never do (they answer the same whatever
  \<^verbatim>\<open>fit_transform\<close> is, and return no state); \<^verbatim>\<open>get_topics\<close>, \<^verbatim>\<open>topic_names\<close> and
  \<^verbatim>\<open>get_feature_names_out\<close> take the learned state alone.
\<close>

theorem transform_first_fit_second:
  "(\<forall>f M. transform v = Some f \<and> f s corpus (Some emb) = Inr M \<longrightarrow>
        transform_or_fit v s corpus emb = Inr (M, s)) \<and>
   (transform v = None \<or>
    (\<exists>f. transform v = Some f \<and>
         (f s corpus (Some emb) = Inl AttributeError \<or> f s corpus (Some emb) = Inl NotFittedError)) \<longrightarrow>
        transform_or_fit v s corpus emb = fit_transform v s corpus (Some emb)) \<and>
   (\<forall>f e. transform v = Some f \<and> f s corpus (Some emb) = Inl e \<and>
          e \<noteq> AttributeError \<and> e \<noteq> NotFittedError \<longrightarrow>
        transform_or_fit v s corpus emb = Inl e) \<and>
   (\<forall>td s'. embeddings_or_encode v corpus embeddings = Inr emb \<and>
          prepare_topic_data L v s corpus embeddings = Inr (td, s') \<longrightarrow>
        (\<exists>M. transform_or_fit v s corpus emb = Inr (M, s') \<and>
             map_of td ''document_topic_matrix'' = Some (Array M))) \<and>
   (\<forall>e. embeddings_or_encode v corpus embeddings = Inr emb \<and>
        transform_or_fit v s corpus emb = Inl e \<longrightarrow>
        prepare_topic_data L v s corpus embeddings = Inl e) \<and>
   (\<forall>g f M. transform v = Some f \<and> f s corpus (Some emb) = Inr M \<and>
          embeddings_or_encode v corpus embeddings = Inr emb \<longrightarrow>
        prepare_topic_data L (v\<lparr>fit_transform := g\<rparr>) s corpus embeddings
          = prepare_topic_data L v s corpus embeddings) \<and>
   (\<forall>g topic_id raw_documents document_topic_matrix top_k.
        highest_ranking_docs L (v\<lparr>fit_transform := g\<rparr>) s topic_id raw_documents
          document_topic_matrix top_k
          = highest_ranking_docs L v s topic_id raw_documents document_topic_matrix top_k) \<and>
   (\<forall>g text topic_dist top_k.
        topic_distribution L (v\<lparr>fit_transform := g\<rparr>) s text topic_dist top_k
          = topic_distribution L v s text topic_dist top_k)"
proof (intro conjI allI impI)
  fix f M assume "transform v = Some f \<and> f s corpus (Some emb) = Inr M"
  then show "transform_or_fit v s corpus emb = Inr (M, s)"
    by (simp add: transform_or_fit_def)
next
  assume "transform v = None \<or>
    (\<exists>f. transform v = Some f \<and>
         (f s corpus (Some emb) = Inl AttributeError \<or> f s corpus (Some emb) = Inl NotFittedError))"
  then show "transform_or_fit v s corpus emb = fit_transform v s corpus (Some emb)"
    by (auto simp: transform_or_fit_def)
next
  fix f e assume "transform v = Some f \<and> f s corpus (Some emb) = Inl e \<and>
          e \<noteq> AttributeError \<and> e \<noteq> NotFittedError"
  then show "transform_or_fit v s corpus emb = Inl e"
    by (cases e) (simp_all add: transform_or_fit_def)
next
  fix td s' assume a: "embeddings_or_encode v corpus embeddings = Inr emb \<and>
          prepare_topic_data L v s corpus embeddings = Inr (td, s')"
  from prepare_topic_data_Inr [of L v s corpus embeddings td s'] a
  obtain M dtm vocab C names where
    "transform_or_fit v s corpus emb = Inr (M, s')"
    "td = [(''corpus'', StrList corpus),
           (''document_term_matrix'', Counts dtm),
           (''vocab'', StrList vocab),
           (''document_topic_matrix'', Array M),
           (''document_representation'', Embeddings emb),
           (''topic_term_matrix'', Array C),
           (''transform'', getattr_transform v),
           (''topic_names'', StrList names)]"
    by auto
  then show "\<exists>M. transform_or_fit v s corpus emb = Inr (M, s') \<and>
             map_of td ''document_topic_matrix'' = Some (Array M)"
    by simp
next
  fix e assume "embeddings_or_encode v corpus embeddings = Inr emb \<and>
        transform_or_fit v s corpus emb = Inl e"
  then show "prepare_topic_data L v s corpus embeddings = Inl e"
    by (simp add: prepare_topic_data_def)
next
  fix g f M assume a: "transform v = Some f \<and> f s corpus (Some emb) = Inr M \<and>
          embeddings_or_encode v corpus embeddings = Inr emb"
  have e: "embeddings_or_encode (v\<lparr>fit_transform := g\<rparr>) corpus embeddings
             = embeddings_or_encode v corpus embeddings"
    by (cases embeddings) (simp_all add: embeddings_or_encode_def encode_documents_def)
  have t: "transform_or_fit (v\<lparr>fit_transform := g\<rparr>) s corpus emb = Inr (M, s)"
    "transform_or_fit v s corpus emb = Inr (M, s)"
    using a by (simp_all add: transform_or_fit_def)
  have gt: "getattr_transform (v\<lparr>fit_transform := g\<rparr>) = getattr_transform v"
    by (simp add: getattr_transform_def)
  show "prepare_topic_data L (v\<lparr>fit_transform := g\<rparr>) s corpus embeddings
          = prepare_topic_data L v s corpus embeddings"
    unfolding prepare_topic_data_def e using a
    by (simp add: t gt cong: sum.case_cong option.case_cong)
next
  fix g topic_id raw_documents document_topic_matrix top_k
  show "highest_ranking_docs L (v\<lparr>fit_transform := g\<rparr>) s topic_id raw_documents
          document_topic_matrix top_k
          = highest_ranking_docs L v s topic_id raw_documents document_topic_matrix top_k"
  proof -
    have "matrix_or_transform (v\<lparr>fit_transform := g\<rparr>) s raw_documents document_topic_matrix
            = matrix_or_transform v s raw_documents document_topic_matrix"
      by (cases document_topic_matrix) (simp_all add: matrix_or_transform_def)
    then show ?thesis by (simp only: highest_ranking_docs_def)
  qed
next
  fix g doc_text topic_dist top_k
  show "topic_distribution L (v\<lparr>fit_transform := g\<rparr>) s doc_text topic_dist top_k
          = topic_distribution L v s doc_text topic_dist top_k"
  proof -
    have "dist_or_transform (v\<lparr>fit_transform := g\<rparr>) s doc_text topic_dist
            = dist_or_transform v s doc_text topic_dist"
      by (cases topic_dist; cases doc_text) (simp_all add: dist_or_transform_def)
    then show ?thesis by (simp only: topic_distribution_def)
  qed
qed

text \<open>
  The theorem at a fitted model with \<^verbatim>\<open>transform\<close>, at the same model before fitting, at a
  transductive model, and at an empty corpus, which \<^verbatim>\<open>transform\<close> rejects.
\<close>

theorem transform_first_fit_second_witness:
  "transform_or_fit inductive_variant labelled_state three_docs [[0], [0], [0]]
     = Inr (\<lparr>ncols = 3, rows = [[0, 1, 0], [0, 1, 0], [0, 1, 0]]\<rparr>, labelled_state) \<and>
   the (transform inductive_variant) unfitted_state three_docs (Some [[0], [0], [0]])
     = Inl NotFittedError \<and>
   transform_or_fit inductive_variant unfitted_state three_docs [[0], [0], [0]]
     = Inr (\<lparr>ncols = 3, rows = [[1, 0, 0], [1, 0, 0], [1, 0, 0]]\<rparr>, labelled_state) \<and>
   transform transductive_variant = None \<and>
   transform_or_fit transductive_variant unfitted_state three_docs [[0], [0], [0]]
     = fit_transform transductive_variant unfitted_state three_docs (Some [[0], [0], [0]]) \<and>
   transform_or_fit inductive_variant labelled_state [] [] = Inl (ValueError ''empty corpus'') \<and>
   prepare_topic_data ref_lib inductive_variant labelled_state [] (Some [])
     = Inl (ValueError ''empty corpus'') \<and>
   (\<exists>td. prepare_topic_data ref_lib inductive_variant labelled_state three_docs (Some [[0], [0], [0]])
            = Inr (td, labelled_state) \<and>
         map_of td ''document_topic_matrix''
            = Some (Array \<lparr>ncols = 3, rows = [[0, 1, 0], [0, 1, 0], [0, 1, 0]]\<rparr>)) \<and>
   prepare_topic_data ref_lib (inductive_variant\<lparr>fit_transform := (\<lambda>s c e. Inl TypeError)\<rparr>)
       labelled_state three_docs (Some [[0], [0], [0]])
     = prepare_topic_data ref_lib inductive_variant labelled_state three_docs (Some [[0], [0], [0]]) \<and>
   highest_ranking_docs ref_lib (inductive_variant\<lparr>fit_transform := (\<lambda>s c e. Inl TypeError)\<rparr>)
       labelled_state 0 three_docs None 5
     = highest_ranking_docs ref_lib inductive_variant labelled_state 0 three_docs None 5 \<and>
   topic_distribution ref_lib (inductive_variant\<lparr>fit_transform := (\<lambda>s c e. Inl TypeError)\<rparr>)
       labelled_state (Some ''an offer'') None 5
     = topic_distribution ref_lib inductive_variant labelled_state (Some ''an offer'') None 5"
proof -
  note v = transform_inductive_values
  have t: "transform transductive_variant = None" by (simp add: transductive_variant_def)
  note A = transform_first_fit_second
    [of inductive_variant labelled_state three_docs "[[0], [0], [0]]" "Some [[0], [0], [0]]" ref_lib]
  note B = transform_first_fit_second
    [of inductive_variant unfitted_state three_docs "[[0], [0], [0]]" "Some [[0], [0], [0]]" ref_lib]
  note B' = transform_first_fit_second
    [of transductive_variant unfitted_state three_docs "[[0], [0], [0]]" None ref_lib]
  note C = transform_first_fit_second
    [of inductive_variant labelled_state "[]" "[]" "Some []" ref_lib]
  note A1 = A [THEN conjunct1] and A4 = A [THEN conjunct2, THEN conjunct2, THEN conjunct2, THEN conjunct1] and A6 = A [THEN conjunct2, THEN conjunct2, THEN conjunct2, THEN conjunct2, THEN conjunct2, THEN conjunct1]
    and A7 = A [THEN conjunct2, THEN conjunct2, THEN conjunct2, THEN conjunct2, THEN conjunct2, THEN conjunct2, THEN conjunct1] and A8 = A [THEN conjunct2, THEN conjunct2, THEN conjunct2, THEN conjunct2, THEN conjunct2, THEN conjunct2, THEN conjunct2]
  note B2 = B [THEN conjunct2, THEN conjunct1] and B'2 = B' [THEN conjunct2, THEN conjunct1]
  note C3 = C [THEN conjunct2, THEN conjunct2, THEN conjunct1] and C5 = C [THEN conjunct2, THEN conjunct2, THEN conjunct2, THEN conjunct2, THEN conjunct1]
  have 1: "transform_or_fit inductive_variant labelled_state three_docs [[0], [0], [0]]
     = Inr (\<lparr>ncols = 3, rows = [[0, 1, 0], [0, 1, 0], [0, 1, 0]]\<rparr>, labelled_state)"
    using A1 v(1,2) by blast
  have 2: "transform_or_fit inductive_variant unfitted_state three_docs [[0], [0], [0]]
     = Inr (\<lparr>ncols = 3, rows = [[1, 0, 0], [1, 0, 0], [1, 0, 0]]\<rparr>, labelled_state)"
    using B2 v(1,3,5) by metis
  have 3: "transform_or_fit transductive_variant unfitted_state three_docs [[0], [0], [0]]
     = fit_transform transductive_variant unfitted_state three_docs (Some [[0], [0], [0]])"
    using B'2 t by blast
  have 4: "transform_or_fit inductive_variant labelled_state [] [] = Inl (ValueError ''empty corpus'')"
    using C3 v(1,4) by (metis py_error.distinct(3) py_error.distinct(11))
  have e0: "embeddings_or_encode inductive_variant [] (Some []) = Inr []"
    by (simp add: embeddings_or_encode_def)
  have 5: "prepare_topic_data ref_lib inductive_variant labelled_state [] (Some [])
     = Inl (ValueError ''empty corpus'')"
    using C5 e0 4 by blast
  have e1: "embeddings_or_encode inductive_variant three_docs (Some [[0], [0], [0]]) = Inr [[0], [0], [0]]"
    by (simp add: embeddings_or_encode_def)
  from A4 e1 prepare_inductive_example obtain M where
    "transform_or_fit inductive_variant labelled_state three_docs [[0], [0], [0]] = Inr (M, labelled_state)"
    "map_of [(''corpus'', StrList three_docs),
             (''document_term_matrix'', Counts [[0, 0, 0, 0, 0], [0, 0, 0, 0, 0], [0, 0, 0, 0, 0]]),
             (''vocab'', StrList [''car'', ''sale'', ''price'', ''item'', ''offer'']),
             (''document_topic_matrix'', Array \<lparr>ncols = 3, rows = [[0, 1, 0], [0, 1, 0], [0, 1, 0]]\<rparr>),
             (''document_representation'', Embeddings [[0], [0], [0]]),
             (''topic_term_matrix'',
                Array \<lparr>ncols = 5, rows = [[5, 4, 3, 2, 1], [1, 2, 3, 4, 5], [2, 5, 1, 4, 3]]\<rparr>),
             (''transform'', getattr_transform inductive_variant),
             (''topic_names'', StrList [''-1_car_sale_price_item'', ''0_offer_item_price_sale'',
                                        ''1_sale_item_offer_car''])] ''document_topic_matrix''
       = Some (Array M)"
    by blast
  then have 6: "\<exists>td. prepare_topic_data ref_lib inductive_variant labelled_state three_docs
          (Some [[0], [0], [0]]) = Inr (td, labelled_state) \<and>
         map_of td ''document_topic_matrix''
            = Some (Array \<lparr>ncols = 3, rows = [[0, 1, 0], [0, 1, 0], [0, 1, 0]]\<rparr>)"
    using prepare_inductive_example 1 by auto
  have 7: "prepare_topic_data ref_lib
       (inductive_variant\<lparr>fit_transform := (\<lambda>s c e. Inl TypeError)\<rparr>)
       labelled_state three_docs (Some [[0], [0], [0]])
     = prepare_topic_data ref_lib inductive_variant labelled_state three_docs (Some [[0], [0], [0]])"
    using A6 v(1,2) e1 by blast
  have 8: "highest_ranking_docs ref_lib
       (inductive_variant\<lparr>fit_transform := (\<lambda>s c e. Inl TypeError)\<rparr>)
       labelled_state 0 three_docs None 5
     = highest_ranking_docs ref_lib inductive_variant labelled_state 0 three_docs None 5"
    using A7 by simp
  have 9: "topic_distribution ref_lib
       (inductive_variant\<lparr>fit_transform := (\<lambda>s c e. Inl TypeError)\<rparr>)
       labelled_state (Some ''an offer'') None 5
     = topic_distribution ref_lib inductive_variant labelled_state (Some ''an offer'') None 5"
    using A8 by simp
  from 1 v(3) 2 t 3 4 5 6 7 8 9 show ?thesis by blast
qed

text \<open>
  Claim C4. In a snapshot \<^verbatim>\<open>prepare_topic_data\<close> returns, the eight keys are those of
  \<^verbatim>\<open>TopicData\<close>, no value other than that of \<open>transform\<close> is \<^verbatim>\<open>None\<close>, and the value of
  \<open>transform\<close> is \<^verbatim>\<open>None\<close> if and only if the model has no \<^verbatim>\<open>transform\<close>. (A snapshot is
  returned whenever the collaborators return and the model is fitted over more than four
  terms: \<open>prepare_topic_data_returns\<close>.)
\<close>

theorem snapshot_fields:
  assumes "prepare_topic_data L v s corpus embeddings = Inr (td, s')"
  shows "map fst td = [''corpus'', ''document_term_matrix'', ''vocab'', ''document_topic_matrix'',
                       ''document_representation'', ''topic_term_matrix'', ''transform'',
                       ''topic_names''] \<and>
         (\<forall>k x. (k, x) \<in> set td \<and> k \<noteq> ''transform'' \<longrightarrow> x \<noteq> PyNone) \<and>
         (map_of td ''transform'' = Some PyNone \<longleftrightarrow> transform v = None)"
proof -
  from prepare_topic_data_Inr [OF assms] obtain emb M dtm vocab C names where
    td: "td = [(''corpus'', StrList corpus),
           (''document_term_matrix'', Counts dtm),
           (''vocab'', StrList vocab),
           (''document_topic_matrix'', Array M),
           (''document_representation'', Embeddings emb),
           (''topic_term_matrix'', Array C),
           (''transform'', getattr_transform v),
           (''topic_names'', StrList names)]"
    by blast
  have g: "getattr_transform v = PyNone \<longleftrightarrow> transform v = None"
    by (simp add: getattr_transform_def split: option.splits)
  have 1: "map fst td = [''corpus'', ''document_term_matrix'', ''vocab'', ''document_topic_matrix'',
                       ''document_representation'', ''topic_term_matrix'', ''transform'',
                       ''topic_names'']" by (simp add: td)
  have 2: "\<forall>k x. (k, x) \<in> set td \<and> k \<noteq> ''transform'' \<longrightarrow> x \<noteq> PyNone"
    by (auto simp: td)
  have 3: "map_of td ''transform'' = Some PyNone \<longleftrightarrow> transform v = None"
    using g by (simp add: td)
  from 1 2 3 show ?thesis by blast
qed

text \<open>The theorem at a transductive model and at a model with \<^verbatim>\<open>transform\<close>.\<close>

theorem snapshot_fields_witness:
  "transform transductive_variant = None \<and>
   (\<exists>td. prepare_topic_data ref_lib transductive_variant unfitted_state three_docs None
            = Inr (td, labelled_state) \<and>
         map_of td ''transform'' = Some PyNone \<and> length td = 8) \<and>
   transform inductive_variant \<noteq> None \<and>
   (\<exists>td. prepare_topic_data ref_lib inductive_variant labelled_state three_docs (Some [[0], [0], [0]])
            = Inr (td, labelled_state) \<and>
         map_of td ''transform'' \<noteq> Some PyNone \<and> length td = 8)"
proof -
  have t: "transform transductive_variant = None" by (simp add: transductive_variant_def)
  have i: "transform inductive_variant \<noteq> None" by (simp add: inductive_variant_def)
  note a = snapshot_fields [OF prepare_transductive_example]
  note b = snapshot_fields [OF prepare_inductive_example]
  have "map_of [(''corpus'', StrList three_docs),
             (''document_term_matrix'', Counts [[0, 0, 0, 0, 0], [0, 0, 0, 0, 0], [0, 0, 0, 0, 0]]),
             (''vocab'', StrList [''car'', ''sale'', ''price'', ''item'', ''offer'']),
             (''document_topic_matrix'', Array \<lparr>ncols = 3, rows = [[1, 0, 0], [1, 0, 0], [1, 0, 0]]\<rparr>),
             (''document_representation'', Embeddings [[0], [0], [0]]),
             (''topic_term_matrix'',
                Array \<lparr>ncols = 5, rows = [[5, 4, 3, 2, 1], [1, 2, 3, 4, 5], [2, 5, 1, 4, 3]]\<rparr>),
             (''transform'', PyNone),
             (''topic_names'', StrList [''-1_car_sale_price_item'', ''0_offer_item_price_sale'',
                                        ''1_sale_item_offer_car''])] ''transform'' = Some PyNone"
    using a t by blast
  then have 1: "\<exists>td. prepare_topic_data ref_lib transductive_variant unfitted_state three_docs None
            = Inr (td, labelled_state) \<and>
         map_of td ''transform'' = Some PyNone \<and> length td = 8"
    using prepare_transductive_example by simp
  have "map_of [(''corpus'', StrList three_docs),
             (''document_term_matrix'', Counts [[0, 0, 0, 0, 0], [0, 0, 0, 0, 0], [0, 0, 0, 0, 0]]),
             (''vocab'', StrList [''car'', ''sale'', ''price'', ''item'', ''offer'']),
             (''document_topic_matrix'', Array \<lparr>ncols = 3, rows = [[0, 1, 0], [0, 1, 0], [0, 1, 0]]\<rparr>),
             (''document_representation'', Embeddings [[0], [0], [0]]),
             (''topic_term_matrix'',
                Array \<lparr>ncols = 5, rows = [[5, 4, 3, 2, 1], [1, 2, 3, 4, 5], [2, 5, 1, 4, 3]]\<rparr>),
             (''transform'', getattr_transform inductive_variant),
             (''topic_names'', StrList [''-1_car_sale_price_item'', ''0_offer_item_price_sale'',
                                        ''1_sale_item_offer_car''])] ''transform'' \<noteq> Some PyNone"
    using b i by blast
  then have 2: "\<exists>td. prepare_topic_data ref_lib inductive_variant labelled_state three_docs
              (Some [[0], [0], [0]]) = Inr (td, labelled_state) \<and>
         map_of td ''transform'' \<noteq> Some PyNone \<and> length td = 8"
    using prepare_inductive_example by simp
  from t 1 i 2 show ?thesis by blast
qed

end
